theory Spec2Isabelle
  imports Complex_Main "HOL-Library.Word" "HOL-Library.Multiset"
begin

section \<open>Machine numbers\<close>

text \<open>
  Go's \<^verbatim>\<open>int\<close> (on a 64-bit platform) and \<^verbatim>\<open>int64\<close> are 64-bit two's-complement
  integers: they are modelled as \<open>64 word\<close>, so that \<open>+\<close>, \<open>-\<close> and \<open>*\<close> wrap as in
  Go; \<open>sint\<close> reads the signed value and \<open><s\<close> is Go's \<^verbatim>\<open><\<close> on them.

  Instants (\<^verbatim>\<open>time.Time\<close>) are integers counting nanoseconds; every read of the
  wall clock (\<^verbatim>\<open>time.Now()\<close>) is an explicit argument of the function that makes it.
  A \<^verbatim>\<open>time.Duration\<close> is an \<^verbatim>\<open>int64\<close> of nanoseconds.
\<close>

type_synonym go_int = "64 word"
type_synonym time = int
type_synonym duration = "64 word"

definition Second :: duration where
  "Second = 1000000000"

definition Minute :: duration where
  "Minute = 60 * Second"

text \<open>\<^verbatim>\<open>t.Add(d)\<close> and the comparison \<^verbatim>\<open>t.After(c) || t.Equal(c)\<close>.\<close>

definition time_Add :: "time \<Rightarrow> duration \<Rightarrow> time" where
  "time_Add t d = t + sint d"

definition not_before :: "time \<Rightarrow> time \<Rightarrow> bool" where
  "not_before t c = (c \<le> t)"

subsection \<open>float64\<close>

text \<open>
  A \<^verbatim>\<open>float64\<close> is an IEEE 754 binary64 number: a finite value (kept as the rational
  it denotes), an infinity or NaN. Every arithmetic operation computes the exact
  rational result and rounds it to the nearest representable value, ties to even
  (\<open>f64_round\<close>), as the hardware does; operations are rounded one by one (no
  fused multiply-add, as on amd64). The two zeros are not distinguished: they
  differ in the sign of a quotient by zero only, and the code modelled here divides
  by constants, by configured thresholds and by values it has tested against zero.
\<close>

datatype float64 = Finite rat | PosInf | NegInf | NaN

text \<open>Number of binary digits of a positive integer.\<close>

function bitlen :: "int \<Rightarrow> int" where
  "bitlen n = (case n \<le> 0 of True \<Rightarrow> 0 | False \<Rightarrow> 1 + bitlen (n div 2))"
  by pat_completeness auto
termination
  by (relation "measure nat") auto

declare bitlen.simps [simp del]

definition pow2 :: "int \<Rightarrow> rat" where
  "pow2 e = (if 0 \<le> e then 2 ^ nat e else 1 / 2 ^ nat (- e))"

text \<open>The binary exponent \<open>\<lfloor>log\<^sub>2 a\<rfloor>\<close> of a positive rational.\<close>

definition ilog2 :: "rat \<Rightarrow> int" where
  "ilog2 a = (if 1 \<le> a then bitlen \<lfloor>a\<rfloor> - 1 else - bitlen (\<lceil>1 / a\<rceil> - 1))"

definition round_even :: "rat \<Rightarrow> int" where
  "round_even x =
     (let f = \<lfloor>x\<rfloor>; d = x - of_int f
      in if d < 1 / 2 then f
         else if 1 / 2 < d then f + 1
         else if even f then f else f + 1)"

text \<open>
  Rounding to binary64: 53 significant bits, the exponent of the last place not
  below \<open>-1074\<close> (subnormal numbers), overflow to an infinity from \<open>2\<^sup>1\<^sup>0\<^sup>2\<^sup>4\<close> on.
\<close>

definition f64_round :: "rat \<Rightarrow> float64" where
  "f64_round x =
     (if x = 0 then Finite 0
      else
        (let q = pow2 (max (ilog2 \<bar>x\<bar>) (- 1022) - 52);
             r = of_int (round_even (x / q)) * q
         in if r \<noteq> 0 \<and> 1024 \<le> ilog2 \<bar>r\<bar>
            then (if 0 < x then PosInf else NegInf)
            else Finite r))"

fun f64_neg :: "float64 \<Rightarrow> float64" where
  "f64_neg (Finite a) = Finite (- a)"
| "f64_neg PosInf = NegInf"
| "f64_neg NegInf = PosInf"
| "f64_neg NaN = NaN"

fun f64_add :: "float64 \<Rightarrow> float64 \<Rightarrow> float64" where
  "f64_add (Finite a) (Finite b) = f64_round (a + b)"
| "f64_add NaN _ = NaN"
| "f64_add _ NaN = NaN"
| "f64_add PosInf NegInf = NaN"
| "f64_add NegInf PosInf = NaN"
| "f64_add PosInf _ = PosInf"
| "f64_add NegInf _ = NegInf"
| "f64_add _ PosInf = PosInf"
| "f64_add _ NegInf = NegInf"

definition f64_sub :: "float64 \<Rightarrow> float64 \<Rightarrow> float64" where
  "f64_sub x y = f64_add x (f64_neg y)"

text \<open>The sign of a product or quotient with an infinite operand.\<close>

definition signed_inf :: "bool \<Rightarrow> float64" where
  "signed_inf positive = (if positive then PosInf else NegInf)"

fun f64_mul :: "float64 \<Rightarrow> float64 \<Rightarrow> float64" where
  "f64_mul (Finite a) (Finite b) = f64_round (a * b)"
| "f64_mul NaN _ = NaN"
| "f64_mul _ NaN = NaN"
| "f64_mul (Finite a) PosInf = (if a = 0 then NaN else signed_inf (0 < a))"
| "f64_mul (Finite a) NegInf = (if a = 0 then NaN else signed_inf (a < 0))"
| "f64_mul PosInf (Finite b) = (if b = 0 then NaN else signed_inf (0 < b))"
| "f64_mul NegInf (Finite b) = (if b = 0 then NaN else signed_inf (b < 0))"
| "f64_mul PosInf PosInf = PosInf"
| "f64_mul NegInf NegInf = PosInf"
| "f64_mul PosInf NegInf = NegInf"
| "f64_mul NegInf PosInf = NegInf"

fun f64_div :: "float64 \<Rightarrow> float64 \<Rightarrow> float64" where
  "f64_div (Finite a) (Finite b) =
     (if b = 0 then (if a = 0 then NaN else signed_inf (0 < a)) else f64_round (a / b))"
| "f64_div NaN _ = NaN"
| "f64_div _ NaN = NaN"
| "f64_div (Finite a) PosInf = Finite 0"
| "f64_div (Finite a) NegInf = Finite 0"
| "f64_div PosInf (Finite b) = signed_inf (0 \<le> b)"
| "f64_div NegInf (Finite b) = signed_inf (b < 0)"
| "f64_div PosInf PosInf = NaN"
| "f64_div PosInf NegInf = NaN"
| "f64_div NegInf PosInf = NaN"
| "f64_div NegInf NegInf = NaN"

fun f64_lt :: "float64 \<Rightarrow> float64 \<Rightarrow> bool" where
  "f64_lt (Finite a) (Finite b) = (a < b)"
| "f64_lt NaN _ = False"
| "f64_lt _ NaN = False"
| "f64_lt (Finite a) PosInf = True"
| "f64_lt (Finite a) NegInf = False"
| "f64_lt PosInf _ = False"
| "f64_lt NegInf (Finite b) = True"
| "f64_lt NegInf PosInf = True"
| "f64_lt NegInf NegInf = False"

definition f64_gt :: "float64 \<Rightarrow> float64 \<Rightarrow> bool" where
  "f64_gt x y = f64_lt y x"

text \<open>Go's \<^verbatim>\<open>==\<close> on floats: NaN equals nothing, not even itself.\<close>

definition f64_eq :: "float64 \<Rightarrow> float64 \<Rightarrow> bool" where
  "f64_eq x y = (x \<noteq> NaN \<and> x = y)"

text \<open>The conversions \<^verbatim>\<open>float64(i)\<close> from an integer and \<^verbatim>\<open>int(f)\<close> to one.\<close>

definition f64_of_int :: "go_int \<Rightarrow> float64" where
  "f64_of_int i = f64_round (of_int (sint i))"

definition f64_of_nat :: "nat \<Rightarrow> float64" where
  "f64_of_nat n = f64_round (of_nat n)"




subsection \<open>strconv.ParseFloat\<close>






section \<open>Data model\<close>

text \<open>
  The structs of the packages \<^verbatim>\<open>state\<close>, \<^verbatim>\<open>scanner\<close>, \<^verbatim>\<open>signals\<close>, \<^verbatim>\<open>config\<close>,
  \<^verbatim>\<open>alerting\<close> and \<^verbatim>\<open>ingestion\<close>, with the fields' names. Several structs share
  field names; a field is written with its struct's name (\<open>PriceLevel.Price\<close>).
  A Go map is a partial function; a pointer is the value it points to. A local
  variable of the source whose name is also a field's (\<^verbatim>\<open>trades\<close>) or a list
  function's (\<^verbatim>\<open>tl\<close>, \<^verbatim>\<open>log\<close>) is abbreviated (\<open>trs\<close>, \<open>tlog\<close>).
\<close>

subsection \<open>Package state\<close>

record PriceLevel =
  Price :: go_int
  Quantity :: go_int

record Orderbook =
  MarketTicker :: string
  Bids :: "PriceLevel list"
  Asks :: "PriceLevel list"
  LastUpdate :: time



datatype MarketStatus =
    StatusInitialized | StatusInactive | StatusActive | StatusClosed
  | StatusDetermined | StatusDisputed | StatusAmended | StatusFinalized

record Market =
  Ticker :: string
  Title :: string
  Category :: string
  Status :: MarketStatus
  ExpirationTime :: "time option"
  EventTicker :: string
  YesSubTitle :: string
  NoSubTitle :: string

datatype TradeSide = SideYes | SideNo

record Trade =
  MarketTicker :: string
  Side :: TradeSide
  Price :: go_int
  Quantity :: go_int
  Timestamp :: time

text \<open>\<^verbatim>\<open>maxLen\<close> is set by \<^verbatim>\<open>NewTradeLog\<close> only, to 1000.\<close>

record TradeLog =
  trades :: "Trade list"
  maxLen :: nat

record MarketSnapshot =
  Timestamp :: time
  MarketTicker :: string
  BestBid :: go_int
  BestAsk :: go_int
  MidPrice :: float64
  Spread :: go_int
  BidDepth :: go_int
  AskDepth :: go_int
  Imbalance :: float64
  Microprice :: float64
  TradeCount :: nat
  LastTrade :: "Trade option"

text \<open>
  The store's signal history (\<^verbatim>\<open>signals\<close>, \<^verbatim>\<open>RecordSignal\<close>) is written by no
  function modelled here and is left out.
\<close>

record TimeSeriesStore =
  snapshots :: "string \<rightharpoonup> MarketSnapshot list"
  trades :: "string \<rightharpoonup> Trade list"
  maxSnapshotsPerMarket :: nat
  maxTradesPerMarket :: nat

record Engine =
  markets :: "string \<rightharpoonup> Market"
  orderbooks :: "string \<rightharpoonup> Orderbook"
  tradeLogs :: "string \<rightharpoonup> TradeLog"
  timeSeries :: TimeSeriesStore

subsection \<open>Package scanner\<close>

record NoArbViolation =
  EventTicker :: string
  Markets :: "string list"
  SumBuyPrice :: float64
  SumSellPrice :: float64
  NetArb :: float64
  EstimatedFees :: float64
  EstimatedSlippage :: float64
  Liquidity :: go_int
  Timestamp :: time
  Actionable :: bool

subsection \<open>Packages config and signals\<close>

record SignalConfig =
  ComputationIntervalSecs :: go_int
  DriftWindowSecs :: go_int
  DriftThreshold :: float64
  ImbalanceThreshold :: float64
  VolumeSurgeThreshold :: float64
  VolumeWindowSecs :: go_int

record AlertingConfig =
  Enabled :: bool
  SlackWebhookURL :: string
  DiscordWebhookURL :: string
  AlertCooldownSecs :: go_int

datatype SignalType =
  SignalTypeImpliedProbabilityDrift | SignalTypeOrderbookImbalance | SignalTypeVolumeSurge

record SignalMetadata =
  PreviousValue :: "float64 option"
  ThresholdCrossed :: bool
  Confidence :: float64

record ImpliedProbabilityDriftData =
  Delta :: float64
  WindowSecs :: go_int

record OrderbookImbalanceData =
  BidRatio :: float64
  SpreadCents :: go_int

record VolumeSurgeData =
  VolumeMultiplier :: float64
  WindowSecs :: go_int

record Signal =
  MarketTicker :: string
  Type :: SignalType
  Value :: float64
  Timestamp :: time
  Metadata :: SignalMetadata
  ImpliedProbabilityDrift :: "ImpliedProbabilityDriftData option"
  OrderbookImbalance :: "OrderbookImbalanceData option"
  VolumeSurge :: "VolumeSurgeData option"

text \<open>
  Of \<^verbatim>\<open>QuantitativeSignal\<close> the processor reads the time stamp, the liquidity score
  and the efficiency score. The record keeps these and the fields they are computed
  from; the calibration, event and trend fields are left out.
\<close>

record QuantitativeSignal =
  MarketTicker :: string
  Timestamp :: time
  EfficiencyScore :: float64
  PriceVolatility :: float64
  ExpectedValue :: float64
  HistoricalMean :: float64
  BidAskSpread :: float64
  LiquidityScore :: float64
  MarketDepth :: go_int

subsection \<open>Packages alerting and ingestion\<close>

text \<open>
  A webhook client is its URL; \<open>None\<close> is the nil client. What the dispatcher does
  to the outside is the list of messages it hands to the clients.
\<close>

record Manager =
  config :: AlertingConfig
  slackClient :: "string option"
  discordClient :: "string option"
  cooldown :: "string \<rightharpoonup> time"

datatype delivery = SlackSend string string | DiscordSend string string

record WebSocketHandler =
  url :: string
  reconnectDelay :: duration

section \<open>Operations\<close>

subsection \<open>Order book (package state)\<close>

definition NewOrderbook :: "time \<Rightarrow> string \<Rightarrow> Orderbook" where
  "NewOrderbook now marketTicker =
     \<lparr>Orderbook.MarketTicker = marketTicker, Orderbook.Bids = [], Orderbook.Asks = [],
      Orderbook.LastUpdate = now\<rparr>"








text \<open>
  \<^verbatim>\<open>Spread\<close> and \<^verbatim>\<open>Microprice\<close> return a value and a flag; the flag \<^verbatim>\<open>false\<close> is \<open>None\<close>
  here.
\<close>

definition Spread :: "Orderbook \<Rightarrow> go_int option" where
  "Spread ob =
     (if length (Bids ob) = 0 \<or> length (Asks ob) = 0 then None
      else
        (let bestBid = PriceLevel.Price (Bids ob ! 0);
             bestAsk = PriceLevel.Price (Asks ob ! 0)
         in Some (bestAsk - bestBid)))"

fun depth_loop :: "PriceLevel list \<Rightarrow> go_int \<Rightarrow> go_int" where
  "depth_loop [] depth = depth"
| "depth_loop (level # rest) depth =
     depth_loop rest (depth + PriceLevel.Price level * PriceLevel.Quantity level)"

definition BidDepth :: "Orderbook \<Rightarrow> go_int" where
  "BidDepth ob = depth_loop (Bids ob) 0"

definition AskDepth :: "Orderbook \<Rightarrow> go_int" where
  "AskDepth ob = depth_loop (Asks ob) 0"

definition ImbalanceRatio :: "Orderbook \<Rightarrow> float64" where
  "ImbalanceRatio ob =
     (let bidDepth = f64_of_int (BidDepth ob);
          askDepth = f64_of_int (AskDepth ob);
          total = f64_add bidDepth askDepth
      in if f64_eq total (Finite 0) then Finite 0
         else f64_div (f64_sub bidDepth askDepth) total)"

definition Microprice :: "Orderbook \<Rightarrow> float64 option" where
  "Microprice ob =
     (if length (Bids ob) = 0 \<or> length (Asks ob) = 0 then None
      else
        (let bestBid = f64_div (f64_of_int (PriceLevel.Price (Bids ob ! 0))) (Finite 100);
             bestAsk = f64_div (f64_of_int (PriceLevel.Price (Asks ob ! 0))) (Finite 100);
             bidQty = f64_of_int (PriceLevel.Quantity (Bids ob ! 0));
             askQty = f64_of_int (PriceLevel.Quantity (Asks ob ! 0));
             totalQty = f64_add bidQty askQty
         in if f64_eq totalQty (Finite 0)
            then Some (f64_div (f64_add bestBid bestAsk) (Finite 2))
            else Some (f64_div (f64_add (f64_mul bestBid askQty) (f64_mul bestAsk bidQty))
                         totalQty)))"

subsection \<open>Trade log\<close>

definition NewTradeLog :: TradeLog where
  "NewTradeLog = \<lparr>TradeLog.trades = [], maxLen = 1000\<rparr>"

definition TradeLog_Add :: "Trade \<Rightarrow> TradeLog \<Rightarrow> TradeLog" where
  "TradeLog_Add trade tlog =
     (let ts = TradeLog.trades tlog @ [trade]
      in if length ts > maxLen tlog
         then tlog\<lparr>TradeLog.trades := drop (length ts - maxLen tlog) ts\<rparr>
         else tlog\<lparr>TradeLog.trades := ts\<rparr>)"

definition GetSince :: "time \<Rightarrow> TradeLog \<Rightarrow> Trade list" where
  "GetSince cutoff tlog =
     filter (\<lambda>trade. not_before (Trade.Timestamp trade) cutoff) (TradeLog.trades tlog)"

subsection \<open>Time-series store\<close>

definition NewTimeSeriesStore :: TimeSeriesStore where
  "NewTimeSeriesStore =
     \<lparr>snapshots = Map.empty, TimeSeriesStore.trades = Map.empty,
      maxSnapshotsPerMarket = 10000, maxTradesPerMarket = 10000\<rparr>"

text \<open>Reading a map of slices at a key it does not hold gives the nil slice.\<close>

definition slice_at :: "('k \<rightharpoonup> 'a list) \<Rightarrow> 'k \<Rightarrow> 'a list" where
  "slice_at m k = (case m k of None \<Rightarrow> [] | Some xs \<Rightarrow> xs)"

text \<open>The snapshot \<^verbatim>\<open>RecordSnapshot\<close> builds from a book with both sides non-empty.\<close>

definition make_snapshot :: "time \<Rightarrow> string \<Rightarrow> Orderbook \<Rightarrow> Trade list \<Rightarrow> MarketSnapshot" where
  "make_snapshot now ticker orderbook trs =
     (let bestBid = PriceLevel.Price (Bids orderbook ! 0);
          bestAsk = PriceLevel.Price (Asks orderbook ! 0);
          midPrice = f64_div (f64_of_int (bestBid + bestAsk)) (Finite 200);
          spread = bestAsk - bestBid;
          microprice = (case Microprice orderbook of None \<Rightarrow> Finite 0 | Some m \<Rightarrow> m);
          micropriceProb = f64_mul microprice (Finite 100)
      in \<lparr>MarketSnapshot.Timestamp = now,
          MarketSnapshot.MarketTicker = ticker,
          MarketSnapshot.BestBid = bestBid,
          MarketSnapshot.BestAsk = bestAsk,
          MarketSnapshot.MidPrice = midPrice,
          MarketSnapshot.Spread = spread,
          MarketSnapshot.BidDepth = BidDepth orderbook,
          MarketSnapshot.AskDepth = AskDepth orderbook,
          MarketSnapshot.Imbalance = ImbalanceRatio orderbook,
          MarketSnapshot.Microprice = micropriceProb,
          MarketSnapshot.TradeCount = length trs,
          MarketSnapshot.LastTrade = (if length trs > 0 then Some (last trs) else None)\<rparr>)"

definition RecordSnapshot ::
  "time \<Rightarrow> string \<Rightarrow> Orderbook \<Rightarrow> Trade list \<Rightarrow> TimeSeriesStore \<Rightarrow> TimeSeriesStore" where
  "RecordSnapshot now ticker orderbook trs ts =
     (if length (Bids orderbook) = 0 \<or> length (Asks orderbook) = 0 then ts
      else
        (let snapshot = make_snapshot now ticker orderbook trs;
             snaps = slice_at (snapshots ts) ticker @ [snapshot];
             snaps' = (if length snaps > maxSnapshotsPerMarket ts
                       then drop (length snaps - maxSnapshotsPerMarket ts) snaps
                       else snaps)
         in ts\<lparr>snapshots := (snapshots ts)(ticker \<mapsto> snaps')\<rparr>))"

definition RecordTrade :: "string \<Rightarrow> Trade \<Rightarrow> TimeSeriesStore \<Rightarrow> TimeSeriesStore" where
  "RecordTrade ticker trade ts =
     (let trs = slice_at (TimeSeriesStore.trades ts) ticker @ [trade];
          trs' = (if length trs > maxTradesPerMarket ts
                  then drop (length trs - maxTradesPerMarket ts) trs
                  else trs)
      in ts\<lparr>TimeSeriesStore.trades := (TimeSeriesStore.trades ts)(ticker \<mapsto> trs')\<rparr>)"

subsection \<open>State engine\<close>

definition NewEngine :: Engine where
  "NewEngine =
     \<lparr>markets = Map.empty, orderbooks = Map.empty, tradeLogs = Map.empty,
      timeSeries = NewTimeSeriesStore\<rparr>"

definition RegisterMarket :: "time \<Rightarrow> Market \<Rightarrow> Engine \<Rightarrow> Engine" where
  "RegisterMarket now market e =
     (let e1 = e\<lparr>markets := (markets e)(Market.Ticker market \<mapsto> market)\<rparr>
      in case orderbooks e1 (Market.Ticker market) of
           None \<Rightarrow>
             e1\<lparr>orderbooks :=
                  (orderbooks e1)(Market.Ticker market \<mapsto> NewOrderbook now (Market.Ticker market))\<rparr>
         | Some _ \<Rightarrow> e1)"

definition GetRecentTrades :: "time \<Rightarrow> string \<Rightarrow> duration \<Rightarrow> Engine \<Rightarrow> Trade list" where
  "GetRecentTrades now ticker window e =
     (case tradeLogs e ticker of
        None \<Rightarrow> []
      | Some tlog \<Rightarrow> GetSince (time_Add now (- window)) tlog)"

text \<open>
  \<^verbatim>\<open>UpdateOrderbook\<close> reads the clock twice: \<open>now\<^sub>t\<close> when it asks for the recent
  trades, \<open>now\<^sub>s\<close> when the snapshot is stamped.
\<close>

definition UpdateOrderbook :: "time \<Rightarrow> time \<Rightarrow> string \<Rightarrow> Orderbook \<Rightarrow> Engine \<Rightarrow> Engine" where
  "UpdateOrderbook now\<^sub>t now\<^sub>s ticker orderbook e =
     (let e1 = e\<lparr>orderbooks := (orderbooks e)(ticker \<mapsto> orderbook)\<rparr>;
          trs = GetRecentTrades now\<^sub>t ticker (5 * Minute) e1
      in e1\<lparr>timeSeries := RecordSnapshot now\<^sub>s ticker orderbook trs (timeSeries e1)\<rparr>)"

definition AddTrade :: "Trade \<Rightarrow> Engine \<Rightarrow> Engine" where
  "AddTrade trade e =
     (let tlog = (case tradeLogs e (Trade.MarketTicker trade) of
                    None \<Rightarrow> NewTradeLog
                  | Some l \<Rightarrow> l)
      in e\<lparr>tradeLogs := (tradeLogs e)(Trade.MarketTicker trade \<mapsto> TradeLog_Add trade tlog),
           timeSeries := RecordTrade (Trade.MarketTicker trade) trade (timeSeries e)\<rparr>)"

text \<open>\<^verbatim>\<open>GetOrderbook\<close> and \<^verbatim>\<open>GetMarket\<close> return a copy, which is the same value.\<close>

definition GetOrderbook :: "string \<Rightarrow> Engine \<Rightarrow> Orderbook option" where
  "GetOrderbook ticker e = orderbooks e ticker"

definition GetMarket :: "string \<Rightarrow> Engine \<Rightarrow> Market option" where
  "GetMarket ticker e = markets e ticker"

subsection \<open>No-arbitrage detector (package scanner)\<close>

text \<open>
  \<^verbatim>\<open>GetAllMarkets\<close> walks a Go map, so the order of the markets it returns is not
  fixed: the functions that start from it take the list it returned, \<open>ms\<close>, as
  an argument. The groups (a map from event ticker to market tickers) are kept as
  an association list in the order in which the events first appear; the order in
  which Go walks them is open as well.
\<close>

definition append_to_group :: "string \<Rightarrow> string \<Rightarrow> (string \<times> string list) list \<Rightarrow> (string \<times> string list) list" where
  "append_to_group eventTicker ticker groups =
     (case map_of groups eventTicker of
        None \<Rightarrow> groups @ [(eventTicker, [ticker])]
      | Some tickers \<Rightarrow>
          map (\<lambda>(k, v). if k = eventTicker then (k, v @ [ticker]) else (k, v)) groups)"

fun group_loop :: "Market list \<Rightarrow> (string \<times> string list) list \<Rightarrow> (string \<times> string list) list" where
  "group_loop [] groups = groups"
| "group_loop (market # rest) groups =
     (if Market.Status market \<noteq> StatusActive then group_loop rest groups
      else if Market.EventTicker market = [] then group_loop rest groups
      else group_loop rest
             (append_to_group (Market.EventTicker market) (Market.Ticker market) groups))"

definition GroupMarketsByEvent :: "Market list \<Rightarrow> (string \<times> string list) list" where
  "GroupMarketsByEvent ms = group_loop ms []"

text \<open>
  The loop of \<^verbatim>\<open>checkEventGroup\<close> over the group's tickers: the running sums and
  the least top-of-book quantity, or \<open>None\<close> when a member has no book or a book
  with an empty side (\<^verbatim>\<open>allMarketsValid = false\<close>).
\<close>

fun legs_loop ::
  "Engine \<Rightarrow> string list \<Rightarrow> float64 \<times> float64 \<times> go_int \<Rightarrow> (float64 \<times> float64 \<times> go_int) option" where
  "legs_loop e [] acc = Some acc"
| "legs_loop e (ticker # rest) (sumBuyPrice, sumSellPrice, minLiquidity) =
     (case GetOrderbook ticker e of
        None \<Rightarrow> None
      | Some orderbook \<Rightarrow>
          if length (Bids orderbook) = 0 \<or> length (Asks orderbook) = 0 then None
          else
            (let bestAsk = f64_div (f64_of_int (PriceLevel.Price (Asks orderbook ! 0))) (Finite 100);
                 bestBid = f64_div (f64_of_int (PriceLevel.Price (Bids orderbook ! 0))) (Finite 100);
                 bidDepth = PriceLevel.Quantity (Bids orderbook ! 0);
                 askDepth = PriceLevel.Quantity (Asks orderbook ! 0);
                 minLiquidity1 = (if bidDepth <s minLiquidity then bidDepth else minLiquidity);
                 minLiquidity2 = (if askDepth <s minLiquidity1 then askDepth else minLiquidity1)
             in legs_loop e rest
                  (f64_add sumBuyPrice bestAsk, f64_add sumSellPrice bestBid, minLiquidity2)))"

text \<open>The decimal constants of the source are the nearest \<^verbatim>\<open>float64\<close> values.\<close>

definition f64_const :: "rat \<Rightarrow> float64" where
  "f64_const c = f64_round c"

definition checkEventGroup :: "time \<Rightarrow> Engine \<Rightarrow> string \<Rightarrow> string list \<Rightarrow> NoArbViolation option" where
  "checkEventGroup now e eventTicker marketTickers =
     (case legs_loop e marketTickers (Finite 0, Finite 0, 1000000) of
        None \<Rightarrow> None
      | Some (sumBuyPrice, sumSellPrice, minLiquidity) \<Rightarrow>
          (case (if f64_lt sumBuyPrice (Finite 1) then Some (f64_sub (Finite 1) sumBuyPrice)
                 else if f64_gt sumSellPrice (Finite 1) then Some (f64_sub sumSellPrice (Finite 1))
                 else None) of
             None \<Rightarrow> None
           | Some netArb \<Rightarrow>
               (let n = f64_of_nat (length marketTickers);
                    estimatedFees =
                      (if f64_gt sumSellPrice (Finite 1)
                       then f64_mul (f64_mul sumSellPrice (f64_const (5 / 100))) n
                       else f64_mul (f64_mul sumBuyPrice (f64_const (5 / 100))) n);
                    estimatedSlippage = f64_mul (f64_const (1 / 100)) n;
                    netArbAfterCosts = f64_sub (f64_sub netArb estimatedFees) estimatedSlippage;
                    actionable = (f64_gt netArbAfterCosts (f64_const (2 / 100)) \<and> 10 \<le>s minLiquidity)
                in Some \<lparr>NoArbViolation.EventTicker = eventTicker,
                         NoArbViolation.Markets = marketTickers,
                         NoArbViolation.SumBuyPrice = sumBuyPrice,
                         NoArbViolation.SumSellPrice = sumSellPrice,
                         NoArbViolation.NetArb = netArbAfterCosts,
                         NoArbViolation.EstimatedFees = estimatedFees,
                         NoArbViolation.EstimatedSlippage = estimatedSlippage,
                         NoArbViolation.Liquidity = minLiquidity,
                         NoArbViolation.Timestamp = now,
                         NoArbViolation.Actionable = actionable\<rparr>)))"

fun violations_loop ::
  "time \<Rightarrow> Engine \<Rightarrow> (string \<times> string list) list \<Rightarrow> NoArbViolation list \<Rightarrow> NoArbViolation list" where
  "violations_loop now e [] violations = violations"
| "violations_loop now e ((eventTicker, marketTickers) # rest) violations =
     (if length marketTickers < 2 then violations_loop now e rest violations
      else
        (case checkEventGroup now e eventTicker marketTickers of
           None \<Rightarrow> violations_loop now e rest violations
         | Some violation \<Rightarrow> violations_loop now e rest (violations @ [violation])))"

definition CheckNoArbViolations :: "time \<Rightarrow> Market list \<Rightarrow> Engine \<Rightarrow> NoArbViolation list" where
  "CheckNoArbViolations now ms e = violations_loop now e (GroupMarketsByEvent ms) []"

subsection \<open>Signal processor (package signals)\<close>

text \<open>The processor's own helpers \<^verbatim>\<open>abs\<close>, \<^verbatim>\<open>min\<close> and \<^verbatim>\<open>sqrt\<close> (ten Newton steps).\<close>

definition abs_go :: "float64 \<Rightarrow> float64" where
  "abs_go x = (if f64_lt x (Finite 0) then f64_neg x else x)"

definition min_go :: "float64 \<Rightarrow> float64 \<Rightarrow> float64" where
  "min_go a b = (if f64_lt a b then a else b)"

fun newton_loop :: "nat \<Rightarrow> float64 \<Rightarrow> float64 \<Rightarrow> float64" where
  "newton_loop 0 x guess = guess"
| "newton_loop (Suc i) x guess =
     newton_loop i x (f64_div (f64_add guess (f64_div x guess)) (Finite 2))"

definition sqrt_go :: "float64 \<Rightarrow> float64" where
  "sqrt_go x = (if f64_eq x (Finite 0) then Finite 0 else newton_loop 10 x x)"

text \<open>
  \<^verbatim>\<open>math.Min\<close> and \<^verbatim>\<open>math.Max\<close> with their special cases. \<^verbatim>\<open>math.Sqrt\<close> is taken as
  the parameter \<open>msqrt\<close> wherever it is called.
\<close>

definition math_Min :: "float64 \<Rightarrow> float64 \<Rightarrow> float64" where
  "math_Min x y =
     (if x = NegInf \<or> y = NegInf then NegInf
      else if x = NaN \<or> y = NaN then NaN
      else if f64_lt x y then x else y)"

definition math_Max :: "float64 \<Rightarrow> float64 \<Rightarrow> float64" where
  "math_Max x y =
     (if x = PosInf \<or> y = PosInf then PosInf
      else if x = NaN \<or> y = NaN then NaN
      else if f64_gt x y then x else y)"

definition computeOrderbookImbalance :: "SignalConfig \<Rightarrow> time \<Rightarrow> string \<Rightarrow> Orderbook \<Rightarrow> Signal option" where
  "computeOrderbookImbalance cfg now ticker orderbook =
     (let imbalanceRatio = ImbalanceRatio orderbook
      in case Spread orderbook of
           None \<Rightarrow> None
         | Some spread \<Rightarrow>
             if f64_gt (abs_go imbalanceRatio) (ImbalanceThreshold cfg)
             then Some \<lparr>Signal.MarketTicker = ticker,
                        Signal.Type = SignalTypeOrderbookImbalance,
                        Signal.Value = imbalanceRatio,
                        Signal.Timestamp = now,
                        Signal.Metadata =
                          \<lparr>PreviousValue = None, ThresholdCrossed = True,
                           Confidence =
                             min_go (f64_div (abs_go imbalanceRatio) (ImbalanceThreshold cfg)) (Finite 1)\<rparr>,
                        Signal.ImpliedProbabilityDrift = None,
                        Signal.OrderbookImbalance =
                          Some \<lparr>BidRatio = imbalanceRatio, SpreadCents = spread\<rparr>,
                        Signal.VolumeSurge = None\<rparr>
             else None)"

fun prob_sum_loop :: "Trade list \<Rightarrow> float64 \<Rightarrow> float64" where
  "prob_sum_loop [] sumProb = sumProb"
| "prob_sum_loop (trade # rest) sumProb =
     prob_sum_loop rest (f64_add sumProb (f64_div (f64_of_int (Trade.Price trade)) (Finite 100)))"

fun variance_loop :: "float64 \<Rightarrow> Trade list \<Rightarrow> float64 \<Rightarrow> float64" where
  "variance_loop avgProb [] variance = variance"
| "variance_loop avgProb (trade # rest) variance =
     (let prob = f64_div (f64_of_int (Trade.Price trade)) (Finite 100)
      in variance_loop avgProb rest
           (f64_add variance (f64_mul (f64_sub prob avgProb) (f64_sub prob avgProb))))"

text \<open>
  \<open>now\<^sub>t\<close> is the clock read of \<^verbatim>\<open>GetRecentTrades\<close>, \<open>now\<^sub>s\<close> the time stamp of
  the signal.
\<close>

definition computeImpliedProbabilityDrift ::
  "SignalConfig \<Rightarrow> time \<Rightarrow> time \<Rightarrow> Engine \<Rightarrow> string \<Rightarrow> Orderbook \<Rightarrow> Signal option" where
  "computeImpliedProbabilityDrift cfg now\<^sub>t now\<^sub>s e ticker orderbook =
     (if length (Bids orderbook) = 0 \<or> length (Asks orderbook) = 0 then None
      else
        (let bestBid = f64_div (f64_of_int (PriceLevel.Price (Bids orderbook ! 0))) (Finite 100);
             bestAsk = f64_div (f64_of_int (PriceLevel.Price (Asks orderbook ! 0))) (Finite 100);
             currentProb = f64_div (f64_add bestBid bestAsk) (Finite 2);
             window = DriftWindowSecs cfg * Second;
             trs = GetRecentTrades now\<^sub>t ticker window e
         in if length trs = 0 then None
            else
              (let avgProb = f64_div (prob_sum_loop trs (Finite 0)) (f64_of_nat (length trs));
                   variance = f64_div (variance_loop avgProb trs (Finite 0)) (f64_of_nat (length trs));
                   stdDev = sqrt_go variance
               in if f64_eq stdDev (Finite 0) then None
                  else
                    (let drift = f64_div (f64_sub currentProb avgProb) stdDev
                     in if f64_gt (abs_go drift) (DriftThreshold cfg)
                        then Some \<lparr>Signal.MarketTicker = ticker,
                                   Signal.Type = SignalTypeImpliedProbabilityDrift,
                                   Signal.Value = drift,
                                   Signal.Timestamp = now\<^sub>s,
                                   Signal.Metadata =
                                     \<lparr>PreviousValue = Some avgProb, ThresholdCrossed = True,
                                      Confidence =
                                        min_go (f64_div (abs_go drift) (DriftThreshold cfg)) (Finite 1)\<rparr>,
                                   Signal.ImpliedProbabilityDrift =
                                     Some \<lparr>Delta = f64_sub currentProb avgProb,
                                           ImpliedProbabilityDriftData.WindowSecs = DriftWindowSecs cfg\<rparr>,
                                   Signal.OrderbookImbalance = None,
                                   Signal.VolumeSurge = None\<rparr>
                        else None))))"

fun volume_loop :: "Trade list \<Rightarrow> go_int \<Rightarrow> go_int" where
  "volume_loop [] volume = volume"
| "volume_loop (trade # rest) volume = volume_loop rest (volume + Trade.Quantity trade)"

text \<open>
  \<^verbatim>\<open>detectVolumeSurge\<close> reads the clock for the recent window (\<open>now\<^sub>r\<close>), for the
  baseline window (\<open>now\<^sub>b\<close>) and for the signal's time stamp (\<open>now\<^sub>s\<close>).
\<close>

definition detectVolumeSurge ::
  "SignalConfig \<Rightarrow> time \<Rightarrow> time \<Rightarrow> time \<Rightarrow> Engine \<Rightarrow> string \<Rightarrow> Signal option" where
  "detectVolumeSurge cfg now\<^sub>r now\<^sub>b now\<^sub>s e ticker =
     (let window = VolumeWindowSecs cfg * Second;
          recentTrades = GetRecentTrades now\<^sub>r ticker window e
      in if length recentTrades = 0 then None
         else
           (let recentVolume = volume_loop recentTrades 0;
                baselineWindow = (VolumeWindowSecs cfg * 5) * Second;
                baselineTrades = GetRecentTrades now\<^sub>b ticker baselineWindow e
            in if length baselineTrades < 2 then None
               else
                 (let baselineVolume = volume_loop baselineTrades 0;
                      baselineAvg = f64_div (f64_of_int baselineVolume) (Finite 5)
                  in if f64_eq baselineAvg (Finite 0) then None
                     else
                       (let surgeRatio = f64_div (f64_of_int recentVolume) baselineAvg
                        in if f64_gt surgeRatio (VolumeSurgeThreshold cfg)
                           then Some \<lparr>Signal.MarketTicker = ticker,
                                      Signal.Type = SignalTypeVolumeSurge,
                                      Signal.Value = surgeRatio,
                                      Signal.Timestamp = now\<^sub>s,
                                      Signal.Metadata =
                                        \<lparr>PreviousValue = Some baselineAvg, ThresholdCrossed = True,
                                         Confidence =
                                           min_go (f64_div surgeRatio (VolumeSurgeThreshold cfg)) (Finite 1)\<rparr>,
                                      Signal.ImpliedProbabilityDrift = None,
                                      Signal.OrderbookImbalance = None,
                                      Signal.VolumeSurge =
                                        Some \<lparr>VolumeMultiplier = surgeRatio,
                                              VolumeSurgeData.WindowSecs = VolumeWindowSecs cfg\<rparr>\<rparr>
                           else None))))"

text \<open>The quantitative bundle (\<^verbatim>\<open>ComputeQuantitativeSignals\<close> and its helpers).\<close>

definition getBestBid :: "Orderbook \<Rightarrow> float64 option" where
  "getBestBid ob =
     (if length (Bids ob) = 0 then None else Some (f64_of_int (PriceLevel.Price (Bids ob ! 0))))"

definition getBestAsk :: "Orderbook \<Rightarrow> float64 option" where
  "getBestAsk ob =
     (if length (Asks ob) = 0 then None else Some (f64_of_int (PriceLevel.Price (Asks ob ! 0))))"

definition computeLiquidityScore :: "Orderbook \<Rightarrow> float64 \<Rightarrow> float64" where
  "computeLiquidityScore ob spread =
     (let depth = f64_of_int (BidDepth ob + AskDepth ob);
          depthScore = math_Min (Finite 1) (f64_div depth (Finite 10000));
          spreadScore = math_Max (Finite 0) (f64_sub (Finite 1) (f64_div spread (Finite 100)))
      in f64_add (f64_mul depthScore (f64_const (6 / 10))) (f64_mul spreadScore (f64_const (4 / 10))))"

definition computeMean :: "Trade list \<Rightarrow> float64" where
  "computeMean trs =
     (if length trs = 0 then Finite 0
      else f64_div (prob_sum_loop trs (Finite 0)) (f64_of_nat (length trs)))"

definition computeVolatility :: "(float64 \<Rightarrow> float64) \<Rightarrow> Trade list \<Rightarrow> float64" where
  "computeVolatility msqrt trs =
     (if length trs < 2 then Finite 0
      else
        (let mean = computeMean trs;
             variance = f64_div (variance_loop mean trs (Finite 0)) (f64_of_nat (length trs))
         in msqrt variance))"

text \<open>
  The \<^verbatim>\<open>orderbook == nil\<close> test of \<^verbatim>\<open>ComputeQuantitativeSignals\<close> has no
  counterpart: the processor passes the book it has just read from the engine.
\<close>

definition ComputeQuantitativeSignals ::
  "(float64 \<Rightarrow> float64) \<Rightarrow> time \<Rightarrow> string \<Rightarrow> Orderbook \<Rightarrow> Trade list \<Rightarrow> QuantitativeSignal option" where
  "ComputeQuantitativeSignals msqrt now ticker orderbook trs =
     (case (getBestBid orderbook, getBestAsk orderbook) of
        (Some bestBid, Some bestAsk) \<Rightarrow>
          (let midPrice = f64_div (f64_add bestBid bestAsk) (Finite 2);
               spread = f64_sub bestAsk bestBid;
               volatility = (if length trs > 1 then computeVolatility msqrt trs else Finite 0);
               mean = (if length trs > 1 then computeMean trs else Finite 0)
           in Some \<lparr>QuantitativeSignal.MarketTicker = ticker,
                    QuantitativeSignal.Timestamp = now,
                    EfficiencyScore =
                      (if f64_gt volatility (Finite 0)
                       then math_Min (Finite 1) (f64_div (f64_div spread (Finite 100)) volatility)
                       else Finite 1),
                    PriceVolatility = volatility,
                    ExpectedValue = f64_div midPrice (Finite 100),
                    HistoricalMean = mean,
                    BidAskSpread = spread,
                    LiquidityScore = computeLiquidityScore orderbook spread,
                    MarketDepth = BidDepth orderbook + AskDepth orderbook\<rparr>)
      | _ \<Rightarrow> None)"

text \<open>
  The fourth block of \<^verbatim>\<open>computeSignals\<close>: the bundle turned into a signal. The
  struct literal sets \<^verbatim>\<open>Confidence\<close> only, so the other metadata fields have Go's
  zero values.
\<close>

definition quantitativeSignal ::
  "(float64 \<Rightarrow> float64) \<Rightarrow> time \<Rightarrow> Engine \<Rightarrow> Market \<Rightarrow> Orderbook \<Rightarrow> Signal option" where
  "quantitativeSignal msqrt now e market orderbook =
     (let trs = GetRecentTrades now (Market.Ticker market) (5 * Minute) e
      in case ComputeQuantitativeSignals msqrt now (Market.Ticker market) orderbook trs of
           None \<Rightarrow> None
         | Some quantSig \<Rightarrow>
             Some \<lparr>Signal.MarketTicker = Market.Ticker market,
                   Signal.Type = SignalTypeOrderbookImbalance,
                   Signal.Value = LiquidityScore quantSig,
                   Signal.Timestamp = QuantitativeSignal.Timestamp quantSig,
                   Signal.Metadata =
                     \<lparr>PreviousValue = None, ThresholdCrossed = False,
                      Confidence = EfficiencyScore quantSig\<rparr>,
                   Signal.ImpliedProbabilityDrift = None,
                   Signal.OrderbookImbalance = None,
                   Signal.VolumeSurge = None\<rparr>)"

text \<open>
  One turn of the loop of \<^verbatim>\<open>computeSignals\<close>: the signals it offers to the channel
  for one market, in order. The clock reads of one turn are taken as one instant.
\<close>

definition offered :: "'a option \<Rightarrow> 'a list" where
  "offered r = (case r of None \<Rightarrow> [] | Some signal \<Rightarrow> [signal])"

definition computeSignals_market ::
  "(float64 \<Rightarrow> float64) \<Rightarrow> SignalConfig \<Rightarrow> time \<Rightarrow> Engine \<Rightarrow> Market \<Rightarrow> Signal list" where
  "computeSignals_market msqrt cfg now e market =
     (if Market.Status market \<noteq> StatusActive then []
      else
        (case GetOrderbook (Market.Ticker market) e of
           None \<Rightarrow> []
         | Some orderbook \<Rightarrow>
             offered (computeOrderbookImbalance cfg now (Market.Ticker market) orderbook)
             @ offered (computeImpliedProbabilityDrift cfg now now e (Market.Ticker market) orderbook)
             @ offered (detectVolumeSurge cfg now now now e (Market.Ticker market))
             @ offered (quantitativeSignal msqrt now e market orderbook)))"

text \<open>
  The non-blocking send: the signal enters the channel's buffer when there is room
  and is dropped otherwise.
\<close>

definition try_send :: "nat \<Rightarrow> Signal list \<Rightarrow> Signal \<Rightarrow> Signal list" where
  "try_send capacity chan signal = (if length chan < capacity then chan @ [signal] else chan)"

definition computeSignals ::
  "(float64 \<Rightarrow> float64) \<Rightarrow> SignalConfig \<Rightarrow> time \<Rightarrow> nat \<Rightarrow> Market list \<Rightarrow> Engine \<Rightarrow> Signal list \<Rightarrow> Signal list" where
  "computeSignals msqrt cfg now capacity ms e chan =
     foldl (\<lambda>ch market. foldl (try_send capacity) ch (computeSignals_market msqrt cfg now e market))
       chan ms"

subsection \<open>Alert dispatcher (package alerting)\<close>

definition SignalType_string :: "SignalType \<Rightarrow> string" where
  "SignalType_string t =
     (case t of
        SignalTypeImpliedProbabilityDrift \<Rightarrow> ''implied_probability_drift''
      | SignalTypeOrderbookImbalance \<Rightarrow> ''orderbook_imbalance''
      | SignalTypeVolumeSurge \<Rightarrow> ''volume_surge'')"

text \<open>\<^verbatim>\<open>time.Since(t)\<close> at the instant \<open>now\<close>: the difference, kept within \<^verbatim>\<open>int64\<close>.\<close>

definition time_Since :: "time \<Rightarrow> time \<Rightarrow> duration" where
  "time_Since now t = word_of_int (max (- (2 ^ 63)) (min (2 ^ 63 - 1) (now - t)))"

text \<open>
  \<^verbatim>\<open>formatSignalMessage\<close> builds the text with \<^verbatim>\<open>fmt.Sprintf\<close>; the text is not
  modelled and the function is the parameter \<open>format\<close>. \<^verbatim>\<open>handleSignal\<close> reads the
  clock for the cool-down test (\<open>now\<^sub>c\<close>) and for the new entry (\<open>now\<^sub>u\<close>); it
  returns the dispatcher and the messages handed to the webhook clients.
\<close>

definition handleSignal ::
  "(Signal \<Rightarrow> string) \<Rightarrow> time \<Rightarrow> time \<Rightarrow> Signal \<Rightarrow> Manager \<Rightarrow> Manager \<times> delivery list" where
  "handleSignal format now\<^sub>c now\<^sub>u signal m =
     (let key = Signal.MarketTicker signal @ SignalType_string (Signal.Type signal);
          inCooldown =
            (case cooldown m key of
               None \<Rightarrow> False
             | Some lastAlert \<Rightarrow>
                 time_Since now\<^sub>c lastAlert <s AlertCooldownSecs (config m) * Second)
      in if inCooldown then (m, [])
         else
           (let message = format signal
            in (m\<lparr>cooldown := (cooldown m)(key \<mapsto> now\<^sub>u)\<rparr>,
                (case slackClient m of None \<Rightarrow> [] | Some u \<Rightarrow> [SlackSend u message])
                @ (case discordClient m of None \<Rightarrow> [] | Some u \<Rightarrow> [DiscordSend u message]))))"

text \<open>The body of the loop of \<^verbatim>\<open>Manager.Run\<close> for one signal received from the channel.\<close>

definition receive_signal ::
  "(Signal \<Rightarrow> string) \<Rightarrow> time \<Rightarrow> time \<Rightarrow> Signal \<Rightarrow> Manager \<Rightarrow> Manager \<times> delivery list" where
  "receive_signal format now\<^sub>c now\<^sub>u signal m =
     (if ThresholdCrossed (Signal.Metadata signal) then handleSignal format now\<^sub>c now\<^sub>u signal m
      else (m, []))"

text \<open>
  \<^verbatim>\<open>Manager.Run\<close> on the signals it receives until it is cancelled, each with the
  two clock reads of its handling.
\<close>

fun Manager_loop ::
  "(Signal \<Rightarrow> string) \<Rightarrow> (Signal \<times> time \<times> time) list \<Rightarrow> Manager \<Rightarrow> delivery list \<Rightarrow> Manager \<times> delivery list" where
  "Manager_loop format [] m sent = (m, sent)"
| "Manager_loop format ((signal, now\<^sub>c, now\<^sub>u) # rest) m sent =
     (case receive_signal format now\<^sub>c now\<^sub>u signal m of
        (m', ds) \<Rightarrow> Manager_loop format rest m' (sent @ ds))"

definition Manager_Run ::
  "(Signal \<Rightarrow> string) \<Rightarrow> (Signal \<times> time \<times> time) list \<Rightarrow> Manager \<Rightarrow> Manager \<times> delivery list" where
  "Manager_Run format received m =
     (if \<not> Enabled (config m) then (m, []) else Manager_loop format received m [])"

subsection \<open>Stream handler (package ingestion)\<close>

definition NewWebSocketHandler :: "string \<Rightarrow> go_int \<Rightarrow> WebSocketHandler" where
  "NewWebSocketHandler webSocketURL webSocketReconnectDelaySecs =
     \<lparr>url = webSocketURL, reconnectDelay = webSocketReconnectDelaySecs * Second\<rparr>"

text \<open>
  What one call of \<^verbatim>\<open>connectAndListen\<close> does to the handler depends on the network
  alone: the dial fails and the call returns at once, or the connection is made,
  the field \<^verbatim>\<open>reconnectDelay\<close> is set, and the call returns when the connection ends.
\<close>

datatype connection = DialFails | Connects

definition connectAndListen :: "connection \<Rightarrow> WebSocketHandler \<Rightarrow> WebSocketHandler" where
  "connectAndListen c w =
     (case c of
        DialFails \<Rightarrow> w
      | Connects \<Rightarrow> w\<lparr>reconnectDelay := 5 * Second\<rparr>)"

text \<open>
  The loop of \<^verbatim>\<open>Run\<close> on the outcomes of its successive connection attempts, up
  to the cancellation of the context: it returns the delays it slept, in order, and
  the handler.
\<close>

fun Run_loop ::
  "connection list \<Rightarrow> duration \<Rightarrow> WebSocketHandler \<Rightarrow> duration list \<Rightarrow> duration list \<times> WebSocketHandler" where
  "Run_loop [] delay w slept = (slept, w)"
| "Run_loop (c # rest) delay w slept =
     (let maxDelay = 60 * Second;
          w' = connectAndListen c w;
          delay2 = delay * 2;
          delay3 = (if maxDelay <s delay2 then maxDelay else delay2)
      in Run_loop rest delay3 w' (slept @ [delay]))"

definition WebSocketHandler_Run :: "connection list \<Rightarrow> WebSocketHandler \<Rightarrow> duration list \<times> WebSocketHandler" where
  "WebSocketHandler_Run attempts w = Run_loop attempts (reconnectDelay w) w []"

section \<open>Notions of the specification\<close>






text \<open>
  The microprice of the specification, from the best bid \<open>(bp, bq)\<close> and the best
  ask \<open>(ap, aq)\<close> in cents and contracts: \<open>microprice_exact\<close> is the formula in exact
  arithmetic, \<open>microprice_f64\<close> the same formula evaluated in \<^verbatim>\<open>float64\<close>.
\<close>

definition microprice_exact :: "int \<Rightarrow> int \<Rightarrow> int \<Rightarrow> int \<Rightarrow> rat" where
  "microprice_exact bp bq ap aq =
     (let best_bid = of_int bp / 100; best_ask = of_int ap / 100
      in if bq + aq = 0 then (best_bid + best_ask) / 2
         else (best_bid * of_int aq + best_ask * of_int bq) / (of_int bq + of_int aq))"

definition microprice_f64 :: "go_int \<Rightarrow> go_int \<Rightarrow> go_int \<Rightarrow> go_int \<Rightarrow> float64" where
  "microprice_f64 bp bq ap aq =
     (let best_bid = f64_div (f64_of_int bp) (Finite 100);
          best_ask = f64_div (f64_of_int ap) (Finite 100);
          bid_qty = f64_of_int bq;
          ask_qty = f64_of_int aq
      in if f64_eq (f64_add bid_qty ask_qty) (Finite 0)
         then f64_div (f64_add best_bid best_ask) (Finite 2)
         else f64_div (f64_add (f64_mul best_bid ask_qty) (f64_mul best_ask bid_qty))
                (f64_add bid_qty ask_qty))"

text \<open>
  A member of an event group has a non-empty book on both sides (\<open>two_sided\<close>).
  The sums of the no-arbitrage check in the words of the specification:
  \<open>sumBuy\<close> adds the best asks and \<open>sumSell\<close> the best bids of the members, in
  dollars, in the order of the group.
\<close>

definition two_sided :: "Engine \<Rightarrow> string \<Rightarrow> bool" where
  "two_sided e ticker =
     (case GetOrderbook ticker e of
        None \<Rightarrow> False
      | Some ob \<Rightarrow> Bids ob \<noteq> [] \<and> Asks ob \<noteq> [])"

definition best_ask_dollars :: "Engine \<Rightarrow> string \<Rightarrow> float64" where
  "best_ask_dollars e ticker =
     f64_div (f64_of_int (PriceLevel.Price (hd (Asks (the (GetOrderbook ticker e)))))) (Finite 100)"

definition best_bid_dollars :: "Engine \<Rightarrow> string \<Rightarrow> float64" where
  "best_bid_dollars e ticker =
     f64_div (f64_of_int (PriceLevel.Price (hd (Bids (the (GetOrderbook ticker e)))))) (Finite 100)"

definition sumBuy :: "Engine \<Rightarrow> string list \<Rightarrow> float64" where
  "sumBuy e tickers = foldl f64_add (Finite 0) (map (best_ask_dollars e) tickers)"

definition sumSell :: "Engine \<Rightarrow> string list \<Rightarrow> float64" where
  "sumSell e tickers = foldl f64_add (Finite 0) (map (best_bid_dollars e) tickers)"

text \<open>
  \<open>minLiquidity\<close> is the least top-of-book quantity over the members' best bids
  and best asks, and at most the 1000000 the code starts from.
\<close>

definition smin :: "go_int \<Rightarrow> go_int \<Rightarrow> go_int" where
  "smin a b = (if a <s b then a else b)"

definition best_ask_qty :: "Engine \<Rightarrow> string \<Rightarrow> go_int" where
  "best_ask_qty e ticker = PriceLevel.Quantity (hd (Asks (the (GetOrderbook ticker e))))"

definition best_bid_qty :: "Engine \<Rightarrow> string \<Rightarrow> go_int" where
  "best_bid_qty e ticker = PriceLevel.Quantity (hd (Bids (the (GetOrderbook ticker e))))"

definition minLiquidity :: "Engine \<Rightarrow> string list \<Rightarrow> go_int" where
  "minLiquidity e tickers =
     foldl (\<lambda>m ticker. smin (best_ask_qty e ticker) (smin (best_bid_qty e ticker) m)) 1000000 tickers"

text \<open>
  The quantities of the volume-surge rule in the words of the specification: the
  recent volume \<open>V\<^sub>r\<close> over the volume window, the baseline trades and volume
  \<open>V\<^sub>b\<close> over five times the window, and the ratio \<open>V\<^sub>r / (V\<^sub>b / 5)\<close>.
\<close>

definition recent_volume :: "SignalConfig \<Rightarrow> time \<Rightarrow> Engine \<Rightarrow> string \<Rightarrow> go_int" where
  "recent_volume cfg now e ticker =
     sum_list (map Trade.Quantity (GetRecentTrades now ticker (VolumeWindowSecs cfg * Second) e))"

definition baseline_trades :: "SignalConfig \<Rightarrow> time \<Rightarrow> Engine \<Rightarrow> string \<Rightarrow> Trade list" where
  "baseline_trades cfg now e ticker =
     GetRecentTrades now ticker (VolumeWindowSecs cfg * 5 * Second) e"

definition baseline_volume :: "SignalConfig \<Rightarrow> time \<Rightarrow> Engine \<Rightarrow> string \<Rightarrow> go_int" where
  "baseline_volume cfg now e ticker = sum_list (map Trade.Quantity (baseline_trades cfg now e ticker))"

definition surge_ratio :: "go_int \<Rightarrow> go_int \<Rightarrow> float64" where
  "surge_ratio v\<^sub>r v\<^sub>b = f64_div (f64_of_int v\<^sub>r) (f64_div (f64_of_int v\<^sub>b) (Finite 5))"

section \<open>Notions of the rounding analysis\<close>

text \<open>
  Half a unit in the last place of a number in \<open>[1, 2)\<close>, the bound on the relative
  error of one rounding to nearest; \<open>shrink\<close> is the factor by which one rounding can
  lower a positive number.
\<close>

definition ulp_half :: rat where
  "ulp_half = pow2 (- 53)"

definition shrink :: rat where
  "shrink = 1 - ulp_half"

text \<open>
  \<open>mag lo hi x\<close>: the exact value \<open>x\<close> is zero or lies between \<open>2\<^sup>l\<^sup>o\<close> and
  \<open>2\<^sup>h\<^sup>i\<close>. \<open>approx k lo hi x y\<close>: the computed \<open>y\<close> is the exact \<open>x\<close> of that
  magnitude up to \<open>k\<close> roundings.
\<close>

definition mag :: "int \<Rightarrow> int \<Rightarrow> rat \<Rightarrow> bool" where
  "mag lo hi x \<longleftrightarrow> x = 0 \<or> (pow2 lo \<le> x \<and> x \<le> pow2 hi)"

definition approx :: "nat \<Rightarrow> int \<Rightarrow> int \<Rightarrow> rat \<Rightarrow> rat \<Rightarrow> bool" where
  "approx k lo hi x y \<longleftrightarrow> mag lo hi x \<and> x * shrink ^ k \<le> y \<and> y * shrink ^ k \<le> x"

section \<open>Example inputs\<close>

text \<open>The book of scenario S3 of the specification.\<close>

definition s3_book :: Orderbook where
  "s3_book =
     \<lparr>Orderbook.MarketTicker = ''M'',
      Orderbook.Bids = [\<lparr>PriceLevel.Price = 55, PriceLevel.Quantity = 800\<rparr>],
      Orderbook.Asks = [\<lparr>PriceLevel.Price = 56, PriceLevel.Quantity = 200\<rparr>],
      Orderbook.LastUpdate = 0\<rparr>"

text \<open>An active market \<open>M\<close> of the event \<open>E\<close>, and the engine holding it with an empty book.\<close>

definition example_market :: Market where
  "example_market =
     \<lparr>Ticker = ''M'', Title = ''Market M'', Category = ''Politics'', Status = StatusActive,
      ExpirationTime = None, Market.EventTicker = ''E'', YesSubTitle = ''Yes'',
      NoSubTitle = ''No''\<rparr>"

definition example_engine :: Engine where
  "example_engine = RegisterMarket 0 example_market NewEngine"

text \<open>
  Scenario S4 of the specification: the event \<open>E\<close> with the active markets \<open>A\<close>,
  \<open>B\<close>, \<open>C\<close>, whose best asks are 30, 45 and 20 cents (best bids one cent below, ten
  contracts at each level).
\<close>

definition s4_market :: "string \<Rightarrow> Market" where
  "s4_market ticker =
     \<lparr>Ticker = ticker, Title = ticker, Category = ''Politics'', Status = StatusActive,
      ExpirationTime = None, Market.EventTicker = ''E'', YesSubTitle = ''Yes'',
      NoSubTitle = ''No''\<rparr>"

definition s4_book :: "string \<Rightarrow> go_int \<Rightarrow> Orderbook" where
  "s4_book ticker ask =
     \<lparr>Orderbook.MarketTicker = ticker,
      Orderbook.Bids = [\<lparr>PriceLevel.Price = ask - 1, PriceLevel.Quantity = 10\<rparr>],
      Orderbook.Asks = [\<lparr>PriceLevel.Price = ask, PriceLevel.Quantity = 10\<rparr>],
      Orderbook.LastUpdate = 0\<rparr>"

definition s4_markets :: "Market list" where
  "s4_markets = [s4_market ''A'', s4_market ''B'', s4_market ''C'']"

definition s4_engine :: Engine where
  "s4_engine =
     NewEngine
       \<lparr>markets := [''A'' \<mapsto> s4_market ''A'', ''B'' \<mapsto> s4_market ''B'', ''C'' \<mapsto> s4_market ''C''],
        orderbooks := [''A'' \<mapsto> s4_book ''A'' 30, ''B'' \<mapsto> s4_book ''B'' 45, ''C'' \<mapsto> s4_book ''C'' 20]\<rparr>"

text \<open>
  The default signal configuration, and market \<open>M\<close> after three trades: ten
  contracts 100 seconds before the instant 1000 s, fifty contracts 10 and 5 seconds
  before it.
\<close>

definition default_config :: SignalConfig where
  "default_config =
     \<lparr>ComputationIntervalSecs = 1, DriftWindowSecs = 60, DriftThreshold = Finite 2,
      ImbalanceThreshold = f64_const (3 / 10), VolumeSurgeThreshold = Finite 3,
      VolumeWindowSecs = 30\<rparr>"

definition example_trade :: "go_int \<Rightarrow> time \<Rightarrow> Trade" where
  "example_trade qty stamp =
     \<lparr>Trade.MarketTicker = ''M'', Side = SideYes, Trade.Price = 55, Trade.Quantity = qty,
      Trade.Timestamp = stamp\<rparr>"

definition surge_engine :: Engine where
  "surge_engine =
     AddTrade (example_trade 50 995000000000)
       (AddTrade (example_trade 50 990000000000)
          (AddTrade (example_trade 10 900000000000) example_engine))"

text \<open>
  Market \<open>M\<close> with the book of scenario S3 and no trade, and a dispatcher with both
  webhook clients and nothing in cool-down.
\<close>

definition s3_engine :: Engine where
  "s3_engine = UpdateOrderbook 10 11 ''M'' s3_book example_engine"

definition example_manager :: Manager where
  "example_manager =
     \<lparr>config = \<lparr>Enabled = True, SlackWebhookURL = ''https://slack.example/hook'',
                 DiscordWebhookURL = ''https://discord.example/hook'', AlertCooldownSecs = 300\<rparr>,
      slackClient = Some ''https://slack.example/hook'',
      discordClient = Some ''https://discord.example/hook'',
      cooldown = Map.empty\<rparr>"

section \<open>Properties\<close>

subsection \<open>Deriving the book from the upstream response\<close>









subsection \<open>A book with an empty side\<close>

lemma f64_round_0 [simp]: "f64_round 0 = Finite 0"
  by (simp add: f64_round_def)

lemma f64_of_int_0 [simp]: "f64_of_int 0 = Finite 0"
  by (simp add: f64_of_int_def)




subsection \<open>Rounding error of the \<^verbatim>\<open>float64\<close> operations\<close>

text \<open>
  Each operation on normal numbers is exact up to one rounding, whose relative error
  is at most \<open>2\<^sup>-\<^sup>5\<^sup>3\<close>. The lemmas below carry a count of roundings and a
  range of binary exponents through a computation.
\<close>

lemma pow2_powi: "pow2 e = 2 powi e"
  by (simp add: pow2_def power_int_def inverse_eq_divide power_one_over)

lemma pow2_pos: "0 < pow2 e"
  by (simp add: pow2_powi)

lemma pow2_add: "pow2 (a + b) = pow2 a * pow2 b"
  by (simp add: pow2_powi power_int_add)

lemma pow2_mono: "a \<le> b \<Longrightarrow> pow2 a \<le> pow2 b"
  by (simp add: pow2_powi power_int_increasing)

lemma pow2_strict_mono: "a < b \<Longrightarrow> pow2 a < pow2 b"
  by (simp add: pow2_powi power_int_strict_increasing)

lemma pow2_0: "pow2 0 = 1"
  by (simp add: pow2_def)

lemma pow2_Suc: "pow2 (e + 1) = 2 * pow2 e"
  by (simp add: pow2_powi power_int_add)

lemma pow2_less_iff: "pow2 a < pow2 b \<longleftrightarrow> a < b"
  by (metis pow2_mono pow2_strict_mono not_less)

lemma pow2_nat: "0 \<le> e \<Longrightarrow> pow2 e = of_int (2 ^ nat e)"
  by (simp add: pow2_def)

lemma bitlen_pos: "0 < n \<Longrightarrow> bitlen n = 1 + bitlen (n div 2)"
  by (subst bitlen.simps) simp

lemma bitlen_nonpos: "n \<le> 0 \<Longrightarrow> bitlen n = 0"
  by (subst bitlen.simps) simp

lemma bitlen_bounds:
  "0 < n \<Longrightarrow> 0 < bitlen n \<and> 2 ^ nat (bitlen n - 1) \<le> n \<and> n < 2 ^ nat (bitlen n)"
proof (induction n rule: bitlen.induct)
  case (1 n)
  show ?case
  proof (cases "n div 2 = 0")
    case True
    with "1.prems" have "n = 1" by presburger
    then show ?thesis by (simp add: bitlen_pos bitlen_nonpos)
  next
    case False
    with "1.prems" have pos: "0 < n div 2" by presburger
    from "1.prems" have "(n \<le> 0) = False" by simp
    from "1.IH" [OF this pos]
    have ih: "0 < bitlen (n div 2)" "2 ^ nat (bitlen (n div 2) - 1) \<le> n div 2"
      "n div 2 < 2 ^ nat (bitlen (n div 2))"
      by simp_all
    have b: "bitlen n = 1 + bitlen (n div 2)" using "1.prems" by (rule bitlen_pos)
    have e1: "nat (bitlen n - 1) = Suc (nat (bitlen (n div 2) - 1))"
      using ih(1) b by simp
    have e2: "nat (bitlen n) = Suc (nat (bitlen (n div 2)))"
      using ih(1) b by simp
    have lo: "2 * 2 ^ nat (bitlen (n div 2) - 1) \<le> n"
      using ih(2) by presburger
    have hi: "n < 2 * 2 ^ nat (bitlen (n div 2))"
      using ih(3) by presburger
    have "0 < bitlen n" using ih(1) b by simp
    then show ?thesis
      unfolding e1 e2 using lo hi by simp
  qed
qed

lemma bitlen_pow2:
  assumes "0 < n"
  shows "pow2 (bitlen n - 1) \<le> of_int n" and "of_int n < pow2 (bitlen n)"
proof -
  from bitlen_bounds [OF assms]
  have b: "0 < bitlen n" "2 ^ nat (bitlen n - 1) \<le> n" "n < 2 ^ nat (bitlen n)"
    by simp_all
  have "pow2 (bitlen n - 1) = of_int (2 ^ nat (bitlen n - 1))"
    using b(1) by (simp add: pow2_nat)
  also have "\<dots> \<le> of_int n"
    using b(2) by (simp only: of_int_le_iff)
  finally show "pow2 (bitlen n - 1) \<le> of_int n" .
  have "(of_int n :: rat) < of_int (2 ^ nat (bitlen n))"
    using b(3) by (simp only: of_int_less_iff)
  also have "\<dots> = pow2 (bitlen n)"
    using b(1) by (simp add: pow2_nat)
  finally show "of_int n < pow2 (bitlen n)" .
qed

lemma ilog2_bounds:
  assumes "0 < a"
  shows "pow2 (ilog2 a) \<le> a" and "a < pow2 (ilog2 a + 1)"
proof -
  have "pow2 (ilog2 a) \<le> a \<and> a < pow2 (ilog2 a + 1)"
  proof (cases "1 \<le> a")
    case True
    then have n: "0 < \<lfloor>a\<rfloor>" by linarith
    have e: "ilog2 a = bitlen \<lfloor>a\<rfloor> - 1" using True by (simp add: ilog2_def)
    have "pow2 (bitlen \<lfloor>a\<rfloor> - 1) \<le> of_int \<lfloor>a\<rfloor>" by (rule bitlen_pow2(1) [OF n])
    also have "\<dots> \<le> a" by simp
    finally have lo: "pow2 (ilog2 a) \<le> a" by (simp add: e)
    have "of_int (\<lfloor>a\<rfloor> + 1) \<le> pow2 (bitlen \<lfloor>a\<rfloor>)"
    proof -
      from bitlen_bounds [OF n] have "\<lfloor>a\<rfloor> + 1 \<le> 2 ^ nat (bitlen \<lfloor>a\<rfloor>)" "0 < bitlen \<lfloor>a\<rfloor>"
        by simp_all
      then have "(of_int (\<lfloor>a\<rfloor> + 1) :: rat) \<le> of_int (2 ^ nat (bitlen \<lfloor>a\<rfloor>))"
        by (simp only: of_int_le_iff)
      then show ?thesis using \<open>0 < bitlen \<lfloor>a\<rfloor>\<close> by (simp add: pow2_nat)
    qed
    moreover have "a < of_int (\<lfloor>a\<rfloor> + 1)" by linarith
    ultimately have hi: "a < pow2 (ilog2 a + 1)" by (simp add: e)
    show ?thesis using lo hi by simp
  next
    case False
    define c where "c = \<lceil>1 / a\<rceil>"
    define k where "k = bitlen (c - 1)"
    from False assms have inv: "1 < 1 / a" by (simp add: field_simps)
    then have c2: "2 \<le> c" unfolding c_def by linarith
    then have n: "0 < c - 1" by simp
    have e: "ilog2 a = - k" using False by (simp add: ilog2_def k_def c_def)
    from bitlen_bounds [OF n] have kb: "0 < k" "2 ^ nat (k - 1) \<le> c - 1" "c - 1 < 2 ^ nat k"
      by (simp_all add: k_def)
    have "1 / a \<le> of_int c" unfolding c_def by linarith
    also have "(of_int c :: rat) \<le> of_int (2 ^ nat k)"
    proof -
      have "c \<le> 2 ^ nat k" using kb(3) by linarith
      then show ?thesis by (simp only: of_int_le_iff)
    qed
    also have "\<dots> = pow2 k" using kb(1) by (simp add: pow2_nat)
    finally have "1 / a \<le> pow2 k" .
    then have "1 \<le> pow2 k * a" using assms by (simp add: field_simps)
    then have "pow2 (- k) * 1 \<le> pow2 (- k) * (pow2 k * a)"
      by (rule mult_left_mono) (simp add: pow2_pos less_imp_le)
    also have "\<dots> = (pow2 (- k) * pow2 k) * a" by (simp only: mult.assoc)
    also have "pow2 (- k) * pow2 k = 1"
      using pow2_add [of "- k" k] by (simp add: pow2_0)
    finally have lo: "pow2 (- k) \<le> a" by simp
    have "pow2 (k - 1) = of_int (2 ^ nat (k - 1))" using kb(1) by (simp add: pow2_nat)
    also have "\<dots> \<le> of_int (c - 1)" using kb(2) by (simp only: of_int_le_iff)
    also have "\<dots> < 1 / a" unfolding c_def by linarith
    finally have "pow2 (k - 1) < 1 / a" .
    then have "pow2 (k - 1) * a < 1" using assms by (simp add: field_simps)
    then have "pow2 (- k + 1) * (pow2 (k - 1) * a) < pow2 (- k + 1) * 1"
      by (rule mult_strict_left_mono) (simp add: pow2_pos)
    moreover have "pow2 (- k + 1) * pow2 (k - 1) = 1"
      using pow2_add [of "- k + 1" "k - 1"] by (simp add: pow2_0)
    then have "pow2 (- k + 1) * (pow2 (k - 1) * a) = a"
      by (simp only: mult.assoc [symmetric] mult_1)
    ultimately have hi: "a < pow2 (- k + 1)" by (simp only: mult_1_right)
    show ?thesis using lo hi by (simp add: e)
  qed
  then show "pow2 (ilog2 a) \<le> a" and "a < pow2 (ilog2 a + 1)" by simp_all
qed

lemma round_even_error: "\<bar>of_int (round_even x) - x\<bar> \<le> 1 / 2"
proof -
  have "of_int \<lfloor>x\<rfloor> \<le> x" "x < of_int \<lfloor>x\<rfloor> + 1" by linarith+
  then show ?thesis
    by (auto simp: round_even_def Let_def abs_le_iff)
qed

lemma ilog2_ge:
  assumes "0 < a" and "pow2 k \<le> a"
  shows "k \<le> ilog2 a"
proof -
  have "pow2 k < pow2 (ilog2 a + 1)"
    using assms(2) ilog2_bounds(2) [OF assms(1)] by (rule le_less_trans)
  then have "k < ilog2 a + 1" by (simp only: pow2_less_iff)
  then show ?thesis by simp
qed

lemma ilog2_less:
  assumes "0 < a" and "a < pow2 k"
  shows "ilog2 a < k"
proof -
  have "pow2 (ilog2 a) < pow2 k"
    using ilog2_bounds(1) [OF assms(1)] assms(2) by (rule le_less_trans)
  then show ?thesis by (simp only: pow2_less_iff)
qed

lemma ulp_half_bounds: "0 < ulp_half" "ulp_half < 1"
proof -
  show "0 < ulp_half" unfolding ulp_half_def by (rule pow2_pos)
  have "pow2 (- 53) < pow2 0" by (rule pow2_strict_mono) simp
  then show "ulp_half < 1" by (simp add: ulp_half_def pow2_0)
qed

lemma f64_round_normal:
  assumes lo: "pow2 (- 1022) \<le> \<bar>x\<bar>" and hi: "\<bar>x\<bar> < pow2 1023"
  shows "\<exists>r. f64_round x = Finite r \<and> \<bar>r - x\<bar> \<le> ulp_half * \<bar>x\<bar>"
proof -
  have xpos: "0 < \<bar>x\<bar>" using lo pow2_pos [of "- 1022"] by linarith
  then have x0: "x \<noteq> 0" by simp
  define e where "e = ilog2 \<bar>x\<bar>"
  define q where "q = pow2 (e - 52)"
  define m where "m = round_even (x / q)"
  define r where "r = of_int m * q"
  have e_lo: "- 1022 \<le> e" unfolding e_def using xpos lo by (rule ilog2_ge)
  have qpos: "0 < q" unfolding q_def by (rule pow2_pos)
  have "\<bar>r - x\<bar> = \<bar>of_int m - x / q\<bar> * q"
  proof -
    have "r - x = (of_int m - x / q) * q" using qpos by (simp add: r_def field_simps)
    then show ?thesis using qpos by (simp add: abs_mult)
  qed
  also have "\<dots> \<le> 1 / 2 * q"
    using round_even_error [of "x / q"] qpos unfolding m_def
    by (intro mult_right_mono) simp_all
  also have "1 / 2 * q = ulp_half * pow2 e"
  proof -
    have "pow2 (e - 52) = pow2 (1 + (- 53 + e))" by simp
    also have "\<dots> = 2 * pow2 (- 53 + e)" using pow2_Suc [of "- 53 + e"] by (simp add: add.commute)
    also have "\<dots> = 2 * (pow2 (- 53) * pow2 e)" by (simp only: pow2_add)
    finally show ?thesis by (simp add: q_def ulp_half_def)
  qed
  also have "\<dots> \<le> ulp_half * \<bar>x\<bar>"
    using ilog2_bounds(1) [OF xpos] ulp_half_bounds(1) unfolding e_def
    by (intro mult_left_mono) simp_all
  finally have err: "\<bar>r - x\<bar> \<le> ulp_half * \<bar>x\<bar>" .
  have "\<bar>r\<bar> \<le> \<bar>x\<bar> + \<bar>r - x\<bar>" by linarith
  also have "\<dots> \<le> \<bar>x\<bar> + ulp_half * \<bar>x\<bar>" using err by simp
  also have "\<dots> < \<bar>x\<bar> + 1 * \<bar>x\<bar>"
    using ulp_half_bounds(2) xpos by (intro add_strict_left_mono mult_strict_right_mono)
  also have "\<dots> = 2 * \<bar>x\<bar>" by simp
  also have "\<dots> < 2 * pow2 1023" using hi by simp
  also have "\<dots> = pow2 1024" using pow2_Suc [of 1023] by simp
  finally have rsmall: "\<bar>r\<bar> < pow2 1024" .
  have no_overflow: "\<not> (r \<noteq> 0 \<and> 1024 \<le> ilog2 \<bar>r\<bar>)"
  proof
    assume a: "r \<noteq> 0 \<and> 1024 \<le> ilog2 \<bar>r\<bar>"
    then have "0 < \<bar>r\<bar>" by simp
    from ilog2_less [OF this rsmall] a show False by simp
  qed
  have "max (ilog2 \<bar>x\<bar>) (- 1022) = e" using e_lo by (simp add: e_def)
  then have "f64_round x = Finite r"
    using x0 no_overflow
    by (simp add: f64_round_def Let_def r_def m_def q_def)
  then show ?thesis using err by blast
qed

lemma shrink_bounds: "0 < shrink" "shrink \<le> 1"
  using ulp_half_bounds by (simp_all add: shrink_def)

lemma shrink_power_bounds: "0 < shrink ^ k" "shrink ^ k \<le> 1"
  using shrink_bounds by (simp_all add: power_le_one)

lemma shrink_power_mono: "j \<le> k \<Longrightarrow> shrink ^ k \<le> shrink ^ j"
  using shrink_bounds by (simp add: power_decreasing)

lemma ulp_half_small: "ulp_half \<le> 1 / 16"
proof -
  have "pow2 (- 53) \<le> pow2 (- 4)" by (rule pow2_mono) simp
  then show ?thesis by (simp add: ulp_half_def pow2_def)
qed

lemma shrink_power_lower: "1 - of_nat k * ulp_half \<le> shrink ^ k"
proof (induction k)
  case 0
  then show ?case by simp
next
  case (Suc k)
  have "1 - of_nat (Suc k) * ulp_half \<le> (1 - of_nat k * ulp_half) * shrink"
  proof -
    have "(1 - of_nat k * ulp_half) * shrink =
        1 - of_nat (Suc k) * ulp_half + of_nat k * ulp_half * ulp_half"
      by (simp add: shrink_def algebra_simps)
    moreover have "0 \<le> of_nat k * ulp_half * ulp_half"
      using ulp_half_bounds(1) by simp
    ultimately show ?thesis by linarith
  qed
  also have "\<dots> \<le> shrink ^ k * shrink"
    using Suc.IH shrink_bounds(1) by (intro mult_right_mono) simp_all
  finally show ?case by (simp add: mult.commute)
qed

lemma shrink_power_half:
  assumes "k \<le> 8"
  shows "1 / 2 \<le> shrink ^ k"
proof -
  have "(of_nat k :: rat) \<le> 8" using assms by simp
  then have "of_nat k * ulp_half \<le> 8 * (1 / 16)"
    using ulp_half_small ulp_half_bounds(1) by (intro mult_mono) simp_all
  then have "1 / 2 \<le> 1 - of_nat k * ulp_half" by simp
  then show ?thesis using shrink_power_lower [of k] by linarith
qed

lemma mag_nonneg: "mag lo hi x \<Longrightarrow> 0 \<le> x"
  using pow2_pos [of lo] by (auto simp: mag_def)

lemma approx_nonneg:
  assumes "approx k lo hi x y"
  shows "0 \<le> x" and "0 \<le> y"
proof -
  show x: "0 \<le> x" using assms mag_nonneg by (auto simp: approx_def)
  have "0 \<le> x * shrink ^ k" using x shrink_power_bounds(1) [of k] by simp
  then show "0 \<le> y" using assms by (simp add: approx_def)
qed

lemma approx_zero:
  assumes "approx k lo hi 0 y"
  shows "y = 0"
proof -
  have "0 \<le> y" using assms by (rule approx_nonneg(2))
  moreover have "y * shrink ^ k \<le> 0" using assms by (simp add: approx_def)
  then have "y \<le> 0" using shrink_power_bounds(1) [of k] by (simp add: mult_le_0_iff)
  ultimately show ?thesis by simp
qed

lemma approx_exact: "mag lo hi x \<Longrightarrow> approx 0 lo hi x x"
  by (simp add: approx_def)

lemma mag_weaken:
  assumes "mag lo hi x" and "lo' \<le> lo" and "hi \<le> hi'"
  shows "mag lo' hi' x"
  using assms pow2_mono [of lo' lo] pow2_mono [of hi hi'] by (auto simp: mag_def)

lemma approx_weaken:
  assumes "approx k lo hi x y" and "k \<le> k'" and "lo' \<le> lo" and "hi \<le> hi'"
  shows "approx k' lo' hi' x y"
proof -
  have nn: "0 \<le> x" "0 \<le> y" using assms(1) by (rule approx_nonneg)+
  have p: "shrink ^ k' \<le> shrink ^ k" using assms(2) by (rule shrink_power_mono)
  have "x * shrink ^ k' \<le> x * shrink ^ k" using p nn(1) by (rule mult_left_mono)
  moreover have "y * shrink ^ k' \<le> y * shrink ^ k" using p nn(2) by (rule mult_left_mono)
  ultimately show ?thesis
    using assms(1) mag_weaken [OF _ assms(3) assms(4)] by (auto simp: approx_def)
qed

lemma approx_normal:
  assumes a: "approx k lo hi x y" and k: "k \<le> 8" and lo: "- 1021 \<le> lo" and hi: "hi \<le> 1021"
  shows "y = 0 \<or> (pow2 (- 1022) \<le> \<bar>y\<bar> \<and> \<bar>y\<bar> < pow2 1023)"
proof (cases "x = 0")
  case True
  with a have "y = 0" by (simp add: approx_zero)
  then show ?thesis by simp
next
  case False
  with a have x: "pow2 lo \<le> x" "x \<le> pow2 hi" by (simp_all add: approx_def mag_def)
  have y0: "0 \<le> y" using a by (rule approx_nonneg(2))
  have xpos: "0 < x" using x(1) pow2_pos [of lo] by linarith
  have half: "1 / 2 \<le> shrink ^ k" using k by (rule shrink_power_half)
  have "pow2 (- 1022) \<le> pow2 (lo - 1)" using lo by (intro pow2_mono) simp
  also have "pow2 (lo - 1) = pow2 lo * (1 / 2)"
    using pow2_Suc [of "lo - 1"] by simp
  also have "\<dots> \<le> x * shrink ^ k"
    using x(1) half pow2_pos [of lo] by (intro mult_mono) simp_all
  also have "\<dots> \<le> y" using a by (simp add: approx_def)
  finally have low: "pow2 (- 1022) \<le> y" .
  have "y * (1 / 2) \<le> y * shrink ^ k" using half y0 by (rule mult_left_mono)
  also have "\<dots> \<le> x" using a by (simp add: approx_def)
  finally have "y \<le> 2 * x" by simp
  also have "\<dots> \<le> 2 * pow2 hi" using x(2) by simp
  also have "\<dots> = pow2 (hi + 1)" by (simp add: pow2_Suc)
  also have "\<dots> < pow2 1023" using hi by (intro pow2_strict_mono) simp
  finally have "y < pow2 1023" .
  then show ?thesis using low y0 by simp
qed

lemma approx_round:
  assumes a: "approx k lo hi x y" and k: "k \<le> 8" and lo: "- 1021 \<le> lo" and hi: "hi \<le> 1021"
  shows "\<exists>z. f64_round y = Finite z \<and> approx (Suc k) lo hi x z"
proof (cases "y = 0")
  case True
  have "x * shrink ^ k \<le> 0" using a True by (simp add: approx_def)
  moreover have "0 \<le> x" using a by (rule approx_nonneg(1))
  ultimately have "x = 0" using shrink_power_bounds(1) [of k] by (simp add: mult_le_0_iff)
  then have "approx (Suc k) lo hi x 0" by (simp add: approx_def mag_def)
  moreover have "f64_round y = Finite 0" using True by (simp add: f64_round_def)
  ultimately show ?thesis by blast
next
  case False
  with approx_normal [OF a k lo hi]
  have n: "pow2 (- 1022) \<le> \<bar>y\<bar>" "\<bar>y\<bar> < pow2 1023" by simp_all
  from f64_round_normal [OF n] obtain z where
    z: "f64_round y = Finite z" and err: "\<bar>z - y\<bar> \<le> ulp_half * \<bar>y\<bar>"
    by blast
  have y0: "0 \<le> y" using a by (rule approx_nonneg(2))
  have zlo: "y * shrink \<le> z" using err y0 by (simp add: shrink_def algebra_simps abs_le_iff)
  have zhi: "z \<le> y * (1 + ulp_half)" using err y0 by (simp add: algebra_simps abs_le_iff)
  have p: "0 \<le> shrink ^ k" using shrink_power_bounds(1) [of k] by simp
  have "x * shrink ^ Suc k = (x * shrink ^ k) * shrink" by simp
  also have "\<dots> \<le> y * shrink"
    using a shrink_bounds(1) by (intro mult_right_mono) (simp_all add: approx_def)
  also have "\<dots> \<le> z" by (rule zlo)
  finally have lower: "x * shrink ^ Suc k \<le> z" .
  have "z * shrink \<le> y * (1 + ulp_half) * shrink"
    using zhi shrink_bounds(1) by (intro mult_right_mono) simp_all
  also have "\<dots> = y * (1 - ulp_half * ulp_half)" by (simp add: shrink_def algebra_simps)
  also have "\<dots> \<le> y * 1"
    using y0 ulp_half_bounds(1) by (intro mult_left_mono) simp_all
  finally have zs: "z * shrink \<le> y" by simp
  have "z * shrink ^ Suc k = (z * shrink) * shrink ^ k" by simp
  also have "\<dots> \<le> y * shrink ^ k" using zs p by (rule mult_right_mono)
  also have "\<dots> \<le> x" using a by (simp add: approx_def)
  finally have upper: "z * shrink ^ Suc k \<le> x" .
  have "approx (Suc k) lo hi x z" using a lower upper by (simp add: approx_def)
  then show ?thesis using z by blast
qed

lemma mag_mult:
  assumes "mag a b x" and "mag c d y"
  shows "mag (a + c) (b + d) (x * y)"
proof (cases "x = 0 \<or> y = 0")
  case True
  then show ?thesis by (auto simp: mag_def)
next
  case False
  with assms have x: "pow2 a \<le> x" "x \<le> pow2 b" and y: "pow2 c \<le> y" "y \<le> pow2 d"
    by (simp_all add: mag_def)
  have "pow2 a * pow2 c \<le> x * y"
    using x(1) y(1) pow2_pos [of a] pow2_pos [of c] by (intro mult_mono) simp_all
  moreover have "x * y \<le> pow2 b * pow2 d"
    using x y pow2_pos [of a] pow2_pos [of c] pow2_pos [of b]
    by (intro mult_mono) simp_all
  ultimately show ?thesis by (simp add: mag_def pow2_add)
qed

lemma mag_add:
  assumes "mag a b x" and "mag c d y"
  shows "mag (min a c) (max b d + 1) (x + y)"
proof (cases "x = 0 \<and> y = 0")
  case True
  then show ?thesis by (simp add: mag_def)
next
  case False
  have nn: "0 \<le> x" "0 \<le> y" using assms by (simp_all add: mag_nonneg)
  have xu: "x \<le> pow2 (max b d)"
    using assms(1) pow2_mono [of b "max b d"] pow2_pos [of "max b d"] by (auto simp: mag_def)
  have yu: "y \<le> pow2 (max b d)"
    using assms(2) pow2_mono [of d "max b d"] pow2_pos [of "max b d"] by (auto simp: mag_def)
  have upper: "x + y \<le> pow2 (max b d + 1)" using xu yu by (simp add: pow2_Suc)
  have lower: "pow2 (min a c) \<le> x + y"
  proof (cases "x = 0")
    case True
    with False assms(2) have "pow2 c \<le> y" by (simp add: mag_def)
    then show ?thesis using True pow2_mono [of "min a c" c] by simp
  next
    case False
    with assms(1) have "pow2 a \<le> x" by (simp add: mag_def)
    then show ?thesis using nn(2) pow2_mono [of "min a c" a] by simp
  qed
  show ?thesis using lower upper by (simp add: mag_def)
qed

lemma mag_div:
  assumes "mag a b x" and "pow2 c \<le> y" and "y \<le> pow2 d"
  shows "mag (a - d) (b - c) (x / y)"
proof (cases "x = 0")
  case True
  then show ?thesis by (simp add: mag_def)
next
  case False
  with assms(1) have x: "pow2 a \<le> x" "x \<le> pow2 b" by (simp_all add: mag_def)
  have ypos: "0 < y" using assms(2) pow2_pos [of c] by linarith
  have "pow2 (a - d) * y \<le> pow2 (a - d) * pow2 d"
    using assms(3) pow2_pos [of "a - d"] by (intro mult_left_mono) simp_all
  also have "\<dots> = pow2 a" using pow2_add [of "a - d" d] by simp
  also have "\<dots> \<le> x" by (rule x(1))
  finally have lower: "pow2 (a - d) \<le> x / y" using ypos by (simp add: pos_le_divide_eq)
  have "x \<le> pow2 b" by (rule x(2))
  also have "\<dots> = pow2 (b - c) * pow2 c" using pow2_add [of "b - c" c] by simp
  also have "\<dots> \<le> pow2 (b - c) * y"
    using assms(2) pow2_pos [of "b - c"] by (intro mult_left_mono) simp_all
  finally have upper: "x / y \<le> pow2 (b - c)" using ypos by (simp add: pos_divide_le_eq)
  show ?thesis using lower upper by (simp add: mag_def)
qed

lemma approx_mult:
  assumes a: "approx j a b x y" and b: "approx k c d x' y'"
  shows "approx (j + k) (a + c) (b + d) (x * x') (y * y')"
proof -
  have nn: "0 \<le> x" "0 \<le> y" "0 \<le> x'" "0 \<le> y'"
    using a b by (simp_all add: approx_nonneg)
  have pj: "0 \<le> shrink ^ j" and pk: "0 \<le> shrink ^ k"
    using shrink_power_bounds(1) [of j] shrink_power_bounds(1) [of k] by simp_all
  have "x * x' * shrink ^ (j + k) = (x * shrink ^ j) * (x' * shrink ^ k)"
    by (simp add: power_add algebra_simps)
  also have "\<dots> \<le> y * y'"
    using a b nn pj pk by (intro mult_mono) (simp_all add: approx_def)
  finally have lower: "x * x' * shrink ^ (j + k) \<le> y * y'" .
  have "y * y' * shrink ^ (j + k) = (y * shrink ^ j) * (y' * shrink ^ k)"
    by (simp add: power_add algebra_simps)
  also have "\<dots> \<le> x * x'"
    using a b nn pj pk by (intro mult_mono) (simp_all add: approx_def)
  finally have upper: "y * y' * shrink ^ (j + k) \<le> x * x'" .
  have "mag (a + c) (b + d) (x * x')"
    using a b by (intro mag_mult) (simp_all add: approx_def)
  then show ?thesis using lower upper by (simp add: approx_def)
qed

lemma approx_add:
  assumes a: "approx j a b x y" and b: "approx k c d x' y'"
  shows "approx (max j k) (min a c) (max b d + 1) (x + x') (y + y')"
proof -
  have a': "approx (max j k) a b x y" using a by (rule approx_weaken) simp_all
  have b': "approx (max j k) c d x' y'" using b by (rule approx_weaken) simp_all
  have "mag (min a c) (max b d + 1) (x + x')"
    using a b by (intro mag_add) (simp_all add: approx_def)
  then show ?thesis
    using a' b' by (simp add: approx_def algebra_simps add_mono)
qed

lemma approx_div:
  assumes a: "approx j a b x y" and b: "approx k c d x' y'" and nz: "x' \<noteq> 0"
  shows "approx (j + k) (a - d) (b - c) (x / x') (y / y')"
proof -
  have nn: "0 \<le> x" "0 \<le> y" "0 \<le> x'" "0 \<le> y'"
    using a b by (simp_all add: approx_nonneg)
  have x': "pow2 c \<le> x'" "x' \<le> pow2 d" using b nz by (simp_all add: approx_def mag_def)
  have x'pos: "0 < x'" using nn(3) nz by simp
  have pj: "0 < shrink ^ j" and pk: "0 < shrink ^ k"
    using shrink_power_bounds(1) [of j] shrink_power_bounds(1) [of k] by simp_all
  have "0 < x' * shrink ^ k" using x'pos pk by simp
  then have y'pos: "0 < y'" using b by (simp add: approx_def)
  have l1: "x * shrink ^ j \<le> y" and l2: "y' * shrink ^ k \<le> x'"
    and u1: "y * shrink ^ j \<le> x" and u2: "x' * shrink ^ k \<le> y'"
    using a b by (simp_all add: approx_def)
  have "(x * shrink ^ j) * (y' * shrink ^ k) \<le> y * x'"
    using l1 l2 nn pj pk by (intro mult_mono) simp_all
  then have "x * shrink ^ (j + k) * y' \<le> y * x'"
    by (simp add: power_add algebra_simps)
  then have lower: "x / x' * shrink ^ (j + k) \<le> y / y'"
    using x'pos y'pos by (simp add: field_simps)
  have "(y * shrink ^ j) * (x' * shrink ^ k) \<le> x * y'"
    using u1 u2 nn pj pk by (intro mult_mono) simp_all
  then have "y * shrink ^ (j + k) * x' \<le> x * y'"
    by (simp add: power_add algebra_simps)
  then have upper: "y / y' * shrink ^ (j + k) \<le> x / x'"
    using x'pos y'pos by (simp add: field_simps)
  have "mag (a - d) (b - c) (x / x')"
    using a x' by (intro mag_div) (simp_all add: approx_def)
  then show ?thesis using lower upper by (simp add: approx_def)
qed

lemma approx_zero_iff:
  assumes "approx k lo hi x y"
  shows "y = 0 \<longleftrightarrow> x = 0"
proof
  have nn: "0 \<le> x" "0 \<le> y" using assms by (rule approx_nonneg)+
  have s: "0 < shrink ^ k" by (rule shrink_power_bounds(1))
  {
    assume "y = 0"
    then have "x * shrink ^ k \<le> 0" using assms by (simp add: approx_def)
    then have "x \<le> 0" using s by (simp add: mult_le_0_iff)
    then show "x = 0" using nn(1) by simp
  }
  {
    assume "x = 0"
    then have "y * shrink ^ k \<le> 0" using assms by (simp add: approx_def)
    then have "y \<le> 0" using s by (simp add: mult_le_0_iff)
    then show "y = 0" using nn(2) by simp
  }
qed

lemma f64_add_approx:
  assumes "approx j a b x y" and "approx k c d x' y'"
    and "j < n" and "k < n" and "n \<le> 9"
    and "lo \<le> a" and "lo \<le> c" and "b < hi" and "d < hi"
    and "- 1021 \<le> lo" and "hi \<le> 1021"
  shows "\<exists>z. f64_add (Finite y) (Finite y') = Finite z \<and> approx n lo hi (x + x') z"
proof -
  have "max j k \<le> 8" "- 1021 \<le> min a c" "max b d + 1 \<le> 1021"
    using assms(3-11) by simp_all
  from approx_round [OF approx_add [OF assms(1,2)] this]
  obtain z where z: "f64_round (y + y') = Finite z"
    "approx (Suc (max j k)) (min a c) (max b d + 1) (x + x') z" by blast
  have "approx n lo hi (x + x') z"
    using z(2) by (rule approx_weaken) (use assms(3-11) in simp_all)
  then show ?thesis using z(1) by simp
qed

lemma f64_mul_approx:
  assumes "approx j a b x y" and "approx k c d x' y'"
    and "j + k < n" and "n \<le> 9"
    and "lo \<le> a + c" and "b + d \<le> hi"
    and "- 1021 \<le> lo" and "hi \<le> 1021"
  shows "\<exists>z. f64_mul (Finite y) (Finite y') = Finite z \<and> approx n lo hi (x * x') z"
proof -
  have "j + k \<le> 8" "- 1021 \<le> a + c" "b + d \<le> 1021"
    using assms(3-8) by simp_all
  from approx_round [OF approx_mult [OF assms(1,2)] this]
  obtain z where z: "f64_round (y * y') = Finite z"
    "approx (Suc (j + k)) (a + c) (b + d) (x * x') z" by blast
  have "approx n lo hi (x * x') z"
    using z(2) by (rule approx_weaken) (use assms(3-8) in simp_all)
  then show ?thesis using z(1) by simp
qed

lemma f64_div_approx:
  assumes "approx j a b x y" and "approx k c d x' y'" and "x' \<noteq> 0"
    and "j + k < n" and "n \<le> 9"
    and "lo \<le> a - d" and "b - c \<le> hi"
    and "- 1021 \<le> lo" and "hi \<le> 1021"
  shows "\<exists>z. f64_div (Finite y) (Finite y') = Finite z \<and> approx n lo hi (x / x') z"
proof -
  have y': "y' \<noteq> 0" using approx_zero_iff [OF assms(2)] assms(3) by simp
  have "j + k \<le> 8" "- 1021 \<le> a - d" "b - c \<le> 1021"
    using assms(4-9) by simp_all
  from approx_round [OF approx_div [OF assms(1,2,3)] this]
  obtain z where z: "f64_round (y / y') = Finite z"
    "approx (Suc (j + k)) (a - d) (b - c) (x / x') z" by blast
  have "approx n lo hi (x / x') z"
    using z(2) by (rule approx_weaken) (use assms(4-9) in simp_all)
  then show ?thesis using z(1) y' by simp
qed

lemma mag_of_int:
  assumes "0 \<le> n" and "n < 2 ^ 63"
  shows "mag 0 63 (of_int n)"
proof (cases "n = 0")
  case True
  then show ?thesis by (simp add: mag_def)
next
  case False
  with assms have n: "1 \<le> n" "n \<le> 2 ^ nat 63" by simp_all
  have "(of_int 1 :: rat) \<le> of_int n" using n(1) by (simp only: of_int_le_iff)
  then have lower: "pow2 0 \<le> of_int n" by (simp add: pow2_0)
  have p: "pow2 63 = of_int (2 ^ nat 63)" by (rule pow2_nat) simp
  have "(of_int n :: rat) \<le> of_int (2 ^ nat 63)" using n(2) by (simp only: of_int_le_iff)
  then have upper: "of_int n \<le> pow2 63" by (simp only: p)
  show ?thesis unfolding mag_def using lower upper by blast
qed

lemma f64_of_int_approx:
  assumes "0 \<le> sint w"
  shows "\<exists>z. f64_of_int w = Finite z \<and> approx 1 0 63 (of_int (sint w)) z"
proof -
  have "sint w < 2 ^ 63" using sint_lt [of w] by simp
  then have "mag 0 63 (of_int (sint w))" using assms by (intro mag_of_int)
  then have "approx 0 0 63 (of_int (sint w)) (of_int (sint w))" by (rule approx_exact)
  from approx_round [OF this] show ?thesis by (simp add: f64_of_int_def)
qed

lemma approx_100: "approx 0 6 7 100 100"
  by (simp add: approx_def mag_def pow2_def)

lemma approx_2: "approx 0 1 1 2 2"
  by (simp add: approx_def mag_def pow2_def)

lemma dollars_approx:
  assumes "0 \<le> sint w"
  shows "\<exists>z. f64_div (f64_of_int w) (Finite 100) = Finite z
              \<and> approx 2 (- 7) 57 (of_int (sint w) / 100) z"
proof -
  from f64_of_int_approx [OF assms] obtain p where
    p: "f64_of_int w = Finite p" "approx 1 0 63 (of_int (sint w)) p" by blast
  have "\<exists>z. f64_div (Finite p) (Finite 100) = Finite z
             \<and> approx 2 (- 7) 57 (of_int (sint w) / 100) z"
    using p(2) approx_100 by (rule f64_div_approx) simp_all
  then show ?thesis using p(1) by simp
qed

subsection \<open>Microprice\<close>

lemma microprice_eq:
  assumes "Bids ob \<noteq> []" and "Asks ob \<noteq> []"
  shows "Microprice ob =
           Some (microprice_f64
                   (PriceLevel.Price (hd (Bids ob))) (PriceLevel.Quantity (hd (Bids ob)))
                   (PriceLevel.Price (hd (Asks ob))) (PriceLevel.Quantity (hd (Asks ob))))"
  using assms by (simp add: Microprice_def microprice_f64_def Let_def hd_conv_nth)

lemma microprice_exact_bounds:
  assumes "0 \<le> bq" and "0 \<le> aq" and "bp \<le> ap"
  shows "of_int bp / 100 \<le> microprice_exact bp bq ap aq
         \<and> microprice_exact bp bq ap aq \<le> of_int ap / 100"
proof (cases "bq + aq = 0")
  case True
  then show ?thesis using assms by (simp add: microprice_exact_def)
next
  case False
  with assms have "0 < bq + aq" by linarith
  then have pos: "0 < (of_int bq + of_int aq :: rat)"
    by (metis of_int_0_less_iff of_int_add)
  have c: "(of_int bp / 100 :: rat) \<le> of_int ap / 100" using assms by simp
  have q: "0 \<le> (of_int bq :: rat)" "0 \<le> (of_int aq :: rat)" using assms by simp_all
  have l1: "(of_int bp / 100 :: rat) * of_int bq \<le> of_int ap / 100 * of_int bq"
    using c q(1) by (rule mult_right_mono)
  have u1: "(of_int bp / 100 :: rat) * of_int aq \<le> of_int ap / 100 * of_int aq"
    using c q(2) by (rule mult_right_mono)
  have l: "(of_int bp / 100 :: rat) * (of_int bq + of_int aq)
           \<le> of_int bp / 100 * of_int aq + of_int ap / 100 * of_int bq"
    using l1 by (simp add: distrib_left)
  have u: "(of_int bp / 100 :: rat) * of_int aq + of_int ap / 100 * of_int bq
           \<le> of_int ap / 100 * (of_int bq + of_int aq)"
    using u1 by (simp add: distrib_left)
  have lo: "(of_int bp / 100 :: rat)
            \<le> (of_int bp / 100 * of_int aq + of_int ap / 100 * of_int bq) / (of_int bq + of_int aq)"
    using l pos by (simp only: pos_le_divide_eq)
  have hi: "(of_int bp / 100 * of_int aq + of_int ap / 100 * of_int bq) / (of_int bq + of_int aq)
            \<le> (of_int ap / 100 :: rat)"
    using u pos by (simp only: pos_divide_le_eq)
  show ?thesis
    using False lo hi by (simp add: microprice_exact_def)
qed

lemma microprice_f64_approx:
  assumes bp: "0 \<le> sint bp" and bq: "0 \<le> sint bq" and ap: "0 \<le> sint ap" and aq: "0 \<le> sint aq"
  shows "\<exists>r. microprice_f64 bp bq ap aq = Finite r
             \<and> approx 8 (- 71) 121 (microprice_exact (sint bp) (sint bq) (sint ap) (sint aq)) r"
proof -
  from dollars_approx [OF bp] obtain bb where
    bb: "f64_div (f64_of_int bp) (Finite 100) = Finite bb"
        "approx 2 (- 7) 57 (of_int (sint bp) / 100) bb" by blast
  from dollars_approx [OF ap] obtain ba where
    ba: "f64_div (f64_of_int ap) (Finite 100) = Finite ba"
        "approx 2 (- 7) 57 (of_int (sint ap) / 100) ba" by blast
  from f64_of_int_approx [OF bq] obtain qb where
    qb: "f64_of_int bq = Finite qb" "approx 1 0 63 (of_int (sint bq)) qb" by blast
  from f64_of_int_approx [OF aq] obtain qa where
    qa: "f64_of_int aq = Finite qa" "approx 1 0 63 (of_int (sint aq)) qa" by blast
  have "\<exists>t. f64_add (Finite qb) (Finite qa) = Finite t
            \<and> approx 2 0 64 (of_int (sint bq) + of_int (sint aq)) t"
    using qb(2) qa(2) by (rule f64_add_approx) simp_all
  then obtain t where
    t: "f64_add (Finite qb) (Finite qa) = Finite t"
       "approx 2 0 64 (of_int (sint bq) + of_int (sint aq)) t" by blast
  have zero: "t = 0 \<longleftrightarrow> sint bq + sint aq = 0"
  proof -
    have "t = 0 \<longleftrightarrow> (of_int (sint bq) + of_int (sint aq) :: rat) = 0"
      using t(2) by (rule approx_zero_iff)
    also have "\<dots> \<longleftrightarrow> (of_int (sint bq + sint aq) :: rat) = 0" by simp
    also have "\<dots> \<longleftrightarrow> sint bq + sint aq = 0" by (simp only: of_int_eq_0_iff)
    finally show ?thesis .
  qed
  show ?thesis
  proof (cases "t = 0")
    case True
    have "\<exists>s. f64_add (Finite bb) (Finite ba) = Finite s
              \<and> approx 3 (- 7) 58 (of_int (sint bp) / 100 + of_int (sint ap) / 100) s"
      using bb(2) ba(2) by (rule f64_add_approx) simp_all
    then obtain s where
      s: "f64_add (Finite bb) (Finite ba) = Finite s"
         "approx 3 (- 7) 58 (of_int (sint bp) / 100 + of_int (sint ap) / 100) s" by blast
    have "\<exists>r. f64_div (Finite s) (Finite 2) = Finite r
              \<and> approx 8 (- 71) 121 ((of_int (sint bp) / 100 + of_int (sint ap) / 100) / 2) r"
      using s(2) approx_2 by (rule f64_div_approx) simp_all
    then obtain r where
      r: "f64_div (Finite s) (Finite 2) = Finite r"
         "approx 8 (- 71) 121 ((of_int (sint bp) / 100 + of_int (sint ap) / 100) / 2) r" by blast
    have e: "microprice_exact (sint bp) (sint bq) (sint ap) (sint aq)
             = (of_int (sint bp) / 100 + of_int (sint ap) / 100) / 2"
      using True zero by (simp add: microprice_exact_def)
    have "microprice_f64 bp bq ap aq = Finite r"
      using True by (simp add: microprice_f64_def bb(1) ba(1) qb(1) qa(1) t(1) s(1) r(1)
          f64_eq_def del: f64_add.simps f64_div.simps)
    then show ?thesis using r(2) unfolding e by blast
  next
    case False
    have "\<exists>u. f64_mul (Finite bb) (Finite qa) = Finite u
              \<and> approx 4 (- 7) 120 (of_int (sint bp) / 100 * of_int (sint aq)) u"
      using bb(2) qa(2) by (rule f64_mul_approx) simp_all
    then obtain u where
      u: "f64_mul (Finite bb) (Finite qa) = Finite u"
         "approx 4 (- 7) 120 (of_int (sint bp) / 100 * of_int (sint aq)) u" by blast
    have "\<exists>v. f64_mul (Finite ba) (Finite qb) = Finite v
              \<and> approx 4 (- 7) 120 (of_int (sint ap) / 100 * of_int (sint bq)) v"
      using ba(2) qb(2) by (rule f64_mul_approx) simp_all
    then obtain v where
      v: "f64_mul (Finite ba) (Finite qb) = Finite v"
         "approx 4 (- 7) 120 (of_int (sint ap) / 100 * of_int (sint bq)) v" by blast
    have "\<exists>s. f64_add (Finite u) (Finite v) = Finite s
              \<and> approx 5 (- 7) 121 (of_int (sint bp) / 100 * of_int (sint aq)
                                      + of_int (sint ap) / 100 * of_int (sint bq)) s"
      using u(2) v(2) by (rule f64_add_approx) simp_all
    then obtain s where
      s: "f64_add (Finite u) (Finite v) = Finite s"
         "approx 5 (- 7) 121 (of_int (sint bp) / 100 * of_int (sint aq)
                               + of_int (sint ap) / 100 * of_int (sint bq)) s" by blast
    have nz: "(of_int (sint bq) + of_int (sint aq) :: rat) \<noteq> 0"
      using False approx_zero_iff [OF t(2)] by simp
    have "\<exists>r. f64_div (Finite s) (Finite t) = Finite r
              \<and> approx 8 (- 71) 121
                  ((of_int (sint bp) / 100 * of_int (sint aq)
                    + of_int (sint ap) / 100 * of_int (sint bq))
                   / (of_int (sint bq) + of_int (sint aq))) r"
      using s(2) t(2) nz by (rule f64_div_approx) simp_all
    then obtain r where
      r: "f64_div (Finite s) (Finite t) = Finite r"
         "approx 8 (- 71) 121
            ((of_int (sint bp) / 100 * of_int (sint aq)
              + of_int (sint ap) / 100 * of_int (sint bq))
             / (of_int (sint bq) + of_int (sint aq))) r" by blast
    have e: "microprice_exact (sint bp) (sint bq) (sint ap) (sint aq)
             = (of_int (sint bp) / 100 * of_int (sint aq)
                + of_int (sint ap) / 100 * of_int (sint bq))
               / (of_int (sint bq) + of_int (sint aq))"
      using False zero by (simp add: microprice_exact_def)
    have "microprice_f64 bp bq ap aq = Finite r"
      using False by (simp add: microprice_f64_def bb(1) ba(1) qb(1) qa(1) t(1) u(1) v(1) s(1) r(1)
          f64_eq_def del: f64_add.simps f64_mul.simps f64_div.simps)
    then show ?thesis using r(2) unfolding e by blast
  qed
qed

lemma shrink_8: "1 - 1 / 2 ^ 50 \<le> shrink ^ 8"
  using shrink_power_lower [of 8] by (simp add: ulp_half_def pow2_def)

lemma approx_relative:
  assumes "approx 8 lo hi x y"
  shows "x * (1 - 1 / 2 ^ 50) \<le> y" and "y * (1 - 1 / 2 ^ 50) \<le> x"
proof -
  have nn: "0 \<le> x" "0 \<le> y" using assms by (rule approx_nonneg)+
  have a: "x * shrink ^ 8 \<le> y" "y * shrink ^ 8 \<le> x" using assms by (simp_all add: approx_def)
  have "x * (1 - 1 / 2 ^ 50) \<le> x * shrink ^ 8" using shrink_8 nn(1) by (rule mult_left_mono)
  then show "x * (1 - 1 / 2 ^ 50) \<le> y" using a(1) by (rule order_trans)
  have "y * (1 - 1 / 2 ^ 50) \<le> y * shrink ^ 8" using shrink_8 nn(2) by (rule mult_left_mono)
  then show "y * (1 - 1 / 2 ^ 50) \<le> x" using a(2) by (rule order_trans)
qed

lemma microprice_f64_relative:
  assumes "0 \<le> sint bp" and "0 \<le> sint bq" and "0 \<le> sint ap" and "0 \<le> sint aq"
  shows "\<exists>r. microprice_f64 bp bq ap aq = Finite r
             \<and> 0 \<le> r
             \<and> microprice_exact (sint bp) (sint bq) (sint ap) (sint aq) * (1 - 1 / 2 ^ 50) \<le> r
             \<and> r * (1 - 1 / 2 ^ 50) \<le> microprice_exact (sint bp) (sint bq) (sint ap) (sint aq)"
proof -
  from microprice_f64_approx [OF assms] obtain r where
    r: "microprice_f64 bp bq ap aq = Finite r"
       "approx 8 (- 71) 121 (microprice_exact (sint bp) (sint bq) (sint ap) (sint aq)) r"
    by blast
  show ?thesis using r(1) approx_nonneg(2) [OF r(2)] approx_relative [OF r(2)] by blast
qed

lemma microprice_f64_interval:
  assumes "0 \<le> sint bp" and "0 \<le> sint bq" and "0 \<le> sint ap" and "0 \<le> sint aq"
    and "sint bp \<le> sint ap"
  shows "\<exists>r. microprice_f64 bp bq ap aq = Finite r
             \<and> of_int (sint bp) / 100 * (1 - 1 / 2 ^ 50) \<le> r
             \<and> r * (1 - 1 / 2 ^ 50) \<le> of_int (sint ap) / 100"
proof -
  from microprice_f64_relative [OF assms(1-4)] obtain r where
    r: "microprice_f64 bp bq ap aq = Finite r"
       "microprice_exact (sint bp) (sint bq) (sint ap) (sint aq) * (1 - 1 / 2 ^ 50) \<le> r"
       "r * (1 - 1 / 2 ^ 50) \<le> microprice_exact (sint bp) (sint bq) (sint ap) (sint aq)"
    by blast
  have b: "of_int (sint bp) / 100 \<le> microprice_exact (sint bp) (sint bq) (sint ap) (sint aq)"
          "microprice_exact (sint bp) (sint bq) (sint ap) (sint aq) \<le> of_int (sint ap) / 100"
    using microprice_exact_bounds [OF assms(2,4,5)] by simp_all
  have c: "(0 :: rat) \<le> 1 - 1 / 2 ^ 50" by simp
  have "of_int (sint bp) / 100 * (1 - 1 / 2 ^ 50)
        \<le> microprice_exact (sint bp) (sint bq) (sint ap) (sint aq) * (1 - 1 / 2 ^ 50)"
    using b(1) c by (rule mult_right_mono)
  then have lo: "of_int (sint bp) / 100 * (1 - 1 / 2 ^ 50) \<le> r" using r(2) by (rule order_trans)
  have hi: "r * (1 - 1 / 2 ^ 50) \<le> of_int (sint ap) / 100" using r(3) b(2) by (rule order_trans)
  show ?thesis using r(1) lo hi by blast
qed

text \<open>
  Claim C5, as the code has it. For every order book with both sides non-empty,
  \<open>Microprice\<close> is defined and is the \<^verbatim>\<open>float64\<close> evaluation of
  \<open>(best_bid \<sqdot> ask_qty + best_ask \<sqdot> bid_qty) / (bid_qty + ask_qty)\<close> with the best
  prices in dollars (cents / 100), the simple mid \<open>(best_bid + best_ask) / 2\<close> when
  \<open>bid_qty + ask_qty = 0\<close>. When the best prices and quantities are \<open>\<ge> 0\<close>, the result
  is a finite number within a relative error of \<open>2\<^sup>-\<^sup>5\<^sup>0\<close> of the exact value of the
  formula. The exact value lies within \<open>[best_bid / 100, best_ask / 100]\<close> when the
  quantities are \<open>\<ge> 0\<close> and the best bid is not above the best ask; the result of the
  code then lies within that interval widened by the same relative error, and not
  always within the interval itself.
\<close>

theorem microprice_defined_and_formula:
  assumes "Bids ob = b # bs" and "Asks ob = a # as"
  shows "Microprice ob =
           Some (microprice_f64 (PriceLevel.Price b) (PriceLevel.Quantity b)
                   (PriceLevel.Price a) (PriceLevel.Quantity a))
         \<and> (0 \<le> sint (PriceLevel.Price b) \<and> 0 \<le> sint (PriceLevel.Quantity b)
              \<and> 0 \<le> sint (PriceLevel.Price a) \<and> 0 \<le> sint (PriceLevel.Quantity a)
            \<longrightarrow>
              (\<exists>r. Microprice ob = Some (Finite r)
                 \<and> microprice_exact (sint (PriceLevel.Price b)) (sint (PriceLevel.Quantity b))
                       (sint (PriceLevel.Price a)) (sint (PriceLevel.Quantity a))
                     * (1 - 1 / 2 ^ 50) \<le> r
                 \<and> r * (1 - 1 / 2 ^ 50)
                     \<le> microprice_exact (sint (PriceLevel.Price b)) (sint (PriceLevel.Quantity b))
                          (sint (PriceLevel.Price a)) (sint (PriceLevel.Quantity a))))
         \<and> (0 \<le> sint (PriceLevel.Quantity b) \<and> 0 \<le> sint (PriceLevel.Quantity a)
              \<and> sint (PriceLevel.Price b) \<le> sint (PriceLevel.Price a)
            \<longrightarrow>
              of_int (sint (PriceLevel.Price b)) / 100
                \<le> microprice_exact (sint (PriceLevel.Price b)) (sint (PriceLevel.Quantity b))
                     (sint (PriceLevel.Price a)) (sint (PriceLevel.Quantity a))
              \<and> microprice_exact (sint (PriceLevel.Price b)) (sint (PriceLevel.Quantity b))
                     (sint (PriceLevel.Price a)) (sint (PriceLevel.Quantity a))
                \<le> of_int (sint (PriceLevel.Price a)) / 100)
         \<and> (0 \<le> sint (PriceLevel.Price b) \<and> 0 \<le> sint (PriceLevel.Quantity b)
              \<and> 0 \<le> sint (PriceLevel.Quantity a)
              \<and> sint (PriceLevel.Price b) \<le> sint (PriceLevel.Price a)
            \<longrightarrow>
              (\<exists>r. Microprice ob = Some (Finite r)
                 \<and> of_int (sint (PriceLevel.Price b)) / 100 * (1 - 1 / 2 ^ 50) \<le> r
                 \<and> r * (1 - 1 / 2 ^ 50) \<le> of_int (sint (PriceLevel.Price a)) / 100))"
proof -
  have ne: "Bids ob \<noteq> []" "Asks ob \<noteq> []" using assms by simp_all
  have m: "Microprice ob =
             Some (microprice_f64 (PriceLevel.Price b) (PriceLevel.Quantity b)
                     (PriceLevel.Price a) (PriceLevel.Quantity a))"
    using microprice_eq [OF ne] assms by simp
  have rel: "\<exists>r. Microprice ob = Some (Finite r)
                 \<and> microprice_exact (sint (PriceLevel.Price b)) (sint (PriceLevel.Quantity b))
                       (sint (PriceLevel.Price a)) (sint (PriceLevel.Quantity a))
                     * (1 - 1 / 2 ^ 50) \<le> r
                 \<and> r * (1 - 1 / 2 ^ 50)
                     \<le> microprice_exact (sint (PriceLevel.Price b)) (sint (PriceLevel.Quantity b))
                          (sint (PriceLevel.Price a)) (sint (PriceLevel.Quantity a))"
    if "0 \<le> sint (PriceLevel.Price b)" "0 \<le> sint (PriceLevel.Quantity b)"
       "0 \<le> sint (PriceLevel.Price a)" "0 \<le> sint (PriceLevel.Quantity a)"
    using microprice_f64_relative [OF that] unfolding m by blast
  have itv: "\<exists>r. Microprice ob = Some (Finite r)
                 \<and> of_int (sint (PriceLevel.Price b)) / 100 * (1 - 1 / 2 ^ 50) \<le> r
                 \<and> r * (1 - 1 / 2 ^ 50) \<le> of_int (sint (PriceLevel.Price a)) / 100"
    if h: "0 \<le> sint (PriceLevel.Price b)" "0 \<le> sint (PriceLevel.Quantity b)"
       "0 \<le> sint (PriceLevel.Quantity a)"
       "sint (PriceLevel.Price b) \<le> sint (PriceLevel.Price a)"
  proof -
    have "0 \<le> sint (PriceLevel.Price a)" using h(1,4) by simp
    from microprice_f64_interval [OF h(1,2) this h(3,4)] show ?thesis unfolding m by blast
  qed
  show ?thesis using m rel itv microprice_exact_bounds by blast
qed

lemma s3_microprice_f64:
  "microprice_f64 55 800 56 200 = Finite (5026017184145475 / 9007199254740992)"
  by code_simp

text \<open>
  The book of scenario S3, bids \<open>[(55, 800)]\<close> and asks \<open>[(56, 200)]\<close>: the exact value
  is 0.558, within \<open>[0.55, 0.56]\<close>, and the \<^verbatim>\<open>float64\<close> result is the number nearest
  to it.
\<close>

theorem microprice_defined_and_formula_witness:
  "Microprice s3_book = Some (Finite (5026017184145475 / 9007199254740992))
   \<and> microprice_exact 55 800 56 200 * (1 - 1 / 2 ^ 50)
       \<le> 5026017184145475 / 9007199254740992
   \<and> 5026017184145475 / 9007199254740992 * (1 - 1 / 2 ^ 50)
       \<le> microprice_exact 55 800 56 200
   \<and> (55 / 100 :: rat) \<le> microprice_exact 55 800 56 200
   \<and> microprice_exact 55 800 56 200 \<le> 56 / 100
   \<and> (55 / 100 :: rat) * (1 - 1 / 2 ^ 50) \<le> 5026017184145475 / 9007199254740992
   \<and> (5026017184145475 / 9007199254740992 :: rat) * (1 - 1 / 2 ^ 50) \<le> 56 / 100"
proof -
  have b: "Bids s3_book = \<lparr>PriceLevel.Price = 55, PriceLevel.Quantity = 800\<rparr> # []"
    "Asks s3_book = \<lparr>PriceLevel.Price = 56, PriceLevel.Quantity = 200\<rparr> # []"
    by (simp_all add: s3_book_def)
  have s: "sint (55 :: go_int) = 55" "sint (800 :: go_int) = 800"
    "sint (56 :: go_int) = 56" "sint (200 :: go_int) = 200" by simp_all
  note book = microprice_defined_and_formula [OF b, unfolded PriceLevel.select_convs s]
  have v: "Microprice s3_book = Some (Finite (5026017184145475 / 9007199254740992))"
    using book by (simp add: s3_microprice_f64)
  have "\<exists>r. Microprice s3_book = Some (Finite r)
            \<and> microprice_exact 55 800 56 200 * (1 - 1 / 2 ^ 50) \<le> r
            \<and> r * (1 - 1 / 2 ^ 50) \<le> microprice_exact 55 800 56 200"
    by (rule book [THEN conjunct2, THEN conjunct1, THEN mp]) simp
  then have rel: "microprice_exact 55 800 56 200 * (1 - 1 / 2 ^ 50)
                    \<le> 5026017184145475 / 9007199254740992
                  \<and> 5026017184145475 / 9007199254740992 * (1 - 1 / 2 ^ 50)
                    \<le> microprice_exact 55 800 56 200"
    unfolding v option.inject float64.inject by blast
  have exact: "(55 / 100 :: rat) \<le> microprice_exact 55 800 56 200
               \<and> microprice_exact 55 800 56 200 \<le> 56 / 100"
    using book [THEN conjunct2, THEN conjunct2, THEN conjunct1] by simp
  have "\<exists>r. Microprice s3_book = Some (Finite r)
            \<and> 55 / 100 * (1 - 1 / 2 ^ 50) \<le> r
            \<and> r * (1 - 1 / 2 ^ 50) \<le> 56 / 100"
    using book [THEN conjunct2, THEN conjunct2, THEN conjunct2] by simp
  then have itv: "(55 / 100 :: rat) * (1 - 1 / 2 ^ 50) \<le> 5026017184145475 / 9007199254740992
                  \<and> (5026017184145475 / 9007199254740992 :: rat) * (1 - 1 / 2 ^ 50) \<le> 56 / 100"
    unfolding v option.inject float64.inject by blast
  show ?thesis using v rel exact itv by blast
qed

text \<open>
  The claim as stated fails, also on a book that is not crossed: with the best bid
  \<open>(1, 0)\<close> and the best ask \<open>(2, 29)\<close> the code computes
  \<open>(0.01 \<sqdot> 29 + 0.02 \<sqdot> 0) / 29\<close> in \<^verbatim>\<open>float64\<close>, which is
  \<open>0.009999999999999998\<close>: below \<open>best_bid / 100\<close>, both as the \<^verbatim>\<open>float64\<close> the code
  holds for it and as the exact \<open>1 / 100\<close>.
\<close>

theorem microprice_below_best_bid_counterexample:
  "Microprice \<lparr>Orderbook.MarketTicker = ''M'',
       Bids = [\<lparr>PriceLevel.Price = 1, PriceLevel.Quantity = 0\<rparr>],
       Asks = [\<lparr>PriceLevel.Price = 2, PriceLevel.Quantity = 29\<rparr>], LastUpdate = 0\<rparr>
     = Some (Finite (2882303761517117 / 288230376151711744))
   \<and> f64_div (f64_of_int 1) (Finite 100) = Finite (5764607523034235 / 576460752303423488)
   \<and> (2882303761517117 / 288230376151711744 :: rat) < 5764607523034235 / 576460752303423488
   \<and> (2882303761517117 / 288230376151711744 :: rat) < 1 / 100"
  by code_simp

subsection \<open>Registering a market\<close>

text \<open>
  Claim C6. \<open>RegisterMarket m\<close> stores the market under its ticker, overwriting
  the record there; it creates an empty order book only when the ticker has none,
  and leaves the ticker's existing book as it is. Registering the same market
  again changes nothing: the engine (the markets table and every book) equals the
  engine after the first registration.
\<close>

theorem register_market_idempotent:
  "RegisterMarket now' m (RegisterMarket now m e) = RegisterMarket now m e
   \<and> markets (RegisterMarket now m e) = (markets e)(Market.Ticker m \<mapsto> m)
   \<and> (orderbooks e (Market.Ticker m) = Some ob \<longrightarrow>
        orderbooks (RegisterMarket now m e) = orderbooks e)
   \<and> (orderbooks e (Market.Ticker m) = None \<longrightarrow>
        orderbooks (RegisterMarket now m e) =
          (orderbooks e)(Market.Ticker m \<mapsto> NewOrderbook now (Market.Ticker m)))"
  by (cases "orderbooks e (Market.Ticker m)") (simp_all add: RegisterMarket_def)

text \<open>
  A market registered a second time, after its book has received the levels of
  scenario S3: the book is still there.
\<close>

theorem register_market_idempotent_witness:
  "orderbooks (RegisterMarket 7 example_market (example_engine\<lparr>orderbooks := [''M'' \<mapsto> s3_book]\<rparr>))
     = [''M'' \<mapsto> s3_book]"
proof -
  have h: "orderbooks (example_engine\<lparr>orderbooks := [''M'' \<mapsto> s3_book]\<rparr>)
             (Market.Ticker example_market) = Some s3_book"
    by (simp add: example_market_def)
  from register_market_idempotent
         [of _ example_market 7 "example_engine\<lparr>orderbooks := [''M'' \<mapsto> s3_book]\<rparr>" s3_book] h
  show ?thesis
    by simp
qed

subsection \<open>The trade log\<close>

lemma TradeLog_Add_maxLen [simp]: "maxLen (TradeLog_Add trade tlog) = maxLen tlog"
  by (simp add: TradeLog_Add_def Let_def)

lemma TradeLog_Add_trades:
  "TradeLog.trades (TradeLog_Add trade tlog) =
     drop (length (TradeLog.trades tlog @ [trade]) - maxLen tlog) (TradeLog.trades tlog @ [trade])"
  by (simp add: TradeLog_Add_def Let_def)

lemma drop_suffix_step:
  assumes "xs = drop (length ys - n) ys"
  shows "drop (length (xs @ [t]) - n) (xs @ [t]) = drop (length (ys @ [t]) - n) (ys @ [t])"
proof (cases "length ys \<le> n")
  case True
  then show ?thesis using assms by simp
next
  case False
  then have "length xs = n" using assms by simp
  then show ?thesis using assms False by (simp add: Suc_diff_le)
qed

lemma adds_from_any_log:
  assumes "TradeLog.trades tlog = drop (length ys - maxLen tlog) ys"
  shows "TradeLog.trades (foldl (\<lambda>l trade. TradeLog_Add trade l) tlog ts) =
           drop (length (ys @ ts) - maxLen tlog) (ys @ ts)
         \<and> maxLen (foldl (\<lambda>l trade. TradeLog_Add trade l) tlog ts) = maxLen tlog"
  using assms
proof (induction ts arbitrary: tlog ys)
  case Nil
  then show ?case by simp
next
  case (Cons t ts)
  have step: "TradeLog.trades (TradeLog_Add t tlog) =
      drop (length (ys @ [t]) - maxLen (TradeLog_Add t tlog)) (ys @ [t])"
    using drop_suffix_step [OF Cons.prems, of t] by (simp add: TradeLog_Add_trades)
  from Cons.IH [OF step] show ?case by simp
qed

text \<open>
  Claim C8. After any sequence of \<open>Add\<close> calls on a new trade log, the log holds
  at most 1000 trades, and they are the last 1000 trades added (all of them when
  fewer were added), in the order in which they were added.
\<close>

theorem trade_log_keeps_last_1000:
  "TradeLog.trades (foldl (\<lambda>l trade. TradeLog_Add trade l) NewTradeLog ts) =
     drop (length ts - 1000) ts
   \<and> length (TradeLog.trades (foldl (\<lambda>l trade. TradeLog_Add trade l) NewTradeLog ts)) \<le> 1000"
proof -
  have "TradeLog.trades NewTradeLog = drop (length ([] :: Trade list) - maxLen NewTradeLog) []"
    by (simp add: NewTradeLog_def)
  from adds_from_any_log [OF this, of ts]
  have "TradeLog.trades (foldl (\<lambda>l trade. TradeLog_Add trade l) NewTradeLog ts) =
          drop (length ts - 1000) ts"
    by (simp add: NewTradeLog_def)
  then show ?thesis by simp
qed

subsection \<open>Snapshots on book updates\<close>







subsection \<open>The no-arbitrage detector\<close>

lemma legs_loop_step:
  assumes "GetOrderbook t e = Some ob" and "Bids ob \<noteq> []" and "Asks ob \<noteq> []"
  shows "legs_loop e (t # ts) (sb, ss, m) =
           legs_loop e ts
             (f64_add sb (best_ask_dollars e t), f64_add ss (best_bid_dollars e t),
              smin (best_ask_qty e t) (smin (best_bid_qty e t) m))"
  using assms
  by (simp add: Let_def best_ask_dollars_def best_bid_dollars_def best_ask_qty_def
      best_bid_qty_def smin_def hd_conv_nth)

lemma legs_loop_sums:
  assumes "list_all (two_sided e) tickers"
  shows "legs_loop e tickers (sb, ss, m) =
           Some (foldl f64_add sb (map (best_ask_dollars e) tickers),
                 foldl f64_add ss (map (best_bid_dollars e) tickers),
                 foldl (\<lambda>m ticker. smin (best_ask_qty e ticker) (smin (best_bid_qty e ticker) m))
                   m tickers)"
  using assms
proof (induction tickers arbitrary: sb ss m)
  case Nil
  then show ?case by simp
next
  case (Cons t ts)
  from Cons.prems obtain ob where ob: "GetOrderbook t e = Some ob" "Bids ob \<noteq> []" "Asks ob \<noteq> []"
    by (auto simp: two_sided_def split: option.splits)
  from Cons.prems have rest: "list_all (two_sided e) ts" by simp
  show ?case
    unfolding legs_loop_step [OF ob] Cons.IH [OF rest] by simp
qed

lemma checkEventGroup_buy:
  assumes "legs_loop e tickers (Finite 0, Finite 0, 1000000) = Some (sb, ss, ml)"
      and "f64_lt sb (Finite 1)"
  shows "checkEventGroup now e ev tickers =
     Some \<lparr>NoArbViolation.EventTicker = ev,
           NoArbViolation.Markets = tickers,
           NoArbViolation.SumBuyPrice = sb,
           NoArbViolation.SumSellPrice = ss,
           NoArbViolation.NetArb =
             f64_sub (f64_sub (f64_sub (Finite 1) sb)
               (if f64_gt ss (Finite 1)
                then f64_mul (f64_mul ss (f64_const (5 / 100))) (f64_of_nat (length tickers))
                else f64_mul (f64_mul sb (f64_const (5 / 100))) (f64_of_nat (length tickers))))
               (f64_mul (f64_const (1 / 100)) (f64_of_nat (length tickers))),
           NoArbViolation.EstimatedFees =
             (if f64_gt ss (Finite 1)
              then f64_mul (f64_mul ss (f64_const (5 / 100))) (f64_of_nat (length tickers))
              else f64_mul (f64_mul sb (f64_const (5 / 100))) (f64_of_nat (length tickers))),
           NoArbViolation.EstimatedSlippage = f64_mul (f64_const (1 / 100)) (f64_of_nat (length tickers)),
           NoArbViolation.Liquidity = ml,
           NoArbViolation.Timestamp = now,
           NoArbViolation.Actionable =
             (f64_gt
                (f64_sub (f64_sub (f64_sub (Finite 1) sb)
                   (if f64_gt ss (Finite 1)
                    then f64_mul (f64_mul ss (f64_const (5 / 100))) (f64_of_nat (length tickers))
                    else f64_mul (f64_mul sb (f64_const (5 / 100))) (f64_of_nat (length tickers))))
                   (f64_mul (f64_const (1 / 100)) (f64_of_nat (length tickers))))
                (f64_const (2 / 100))
              \<and> 10 \<le>s ml)\<rparr>"
  using assms by (simp add: checkEventGroup_def Let_def)

lemma violations_loop_eq:
  "violations_loop now e gs acc =
     acc @ List.map_filter
             (\<lambda>g. if length (snd g) < 2 then None else checkEventGroup now e (fst g) (snd g)) gs"
proof (induction gs arbitrary: acc)
  case Nil
  then show ?case by (simp add: map_filter_simps)
next
  case (Cons g gs)
  obtain ev ts where g: "g = (ev, ts)" by (cases g)
  show ?case
  proof (cases "checkEventGroup now e ev ts")
    case None
    then show ?thesis by (simp add: g Cons.IH map_filter_simps)
  next
    case (Some v)
    then show ?thesis by (simp add: g Cons.IH map_filter_simps)
  qed
qed

lemma in_map_filter:
  assumes "x \<in> set xs" and "f x = Some y"
  shows "y \<in> set (List.map_filter f xs)"
proof -
  have "x \<in> set (filter (\<lambda>x. f x \<noteq> None) xs)" using assms by simp
  then have "(the \<circ> f) x \<in> set (map (the \<circ> f) (filter (\<lambda>x. f x \<noteq> None) xs))"
    unfolding set_map by (rule imageI)
  then show ?thesis using assms(2) by (simp add: List.map_filter_def)
qed

lemma violation_listed:
  assumes "(ev, ts) \<in> set gs" and "2 \<le> length ts" and "checkEventGroup now e ev ts = Some v"
  shows "v \<in> set (violations_loop now e gs [])"
proof -
  let ?f = "\<lambda>g. if length (snd g) < 2 then None else checkEventGroup now e (fst g) (snd g)"
  have "?f (ev, ts) = Some v" using assms by simp
  then have "v \<in> set (List.map_filter ?f gs)"
    using assms(1) by (rule in_map_filter [rotated])
  then show ?thesis by (simp add: violations_loop_eq)
qed

lemma two_cents: "f64_const (2 / 100) = Finite (5764607523034235 / 288230376151711744)"
  by code_simp

lemma negative_not_above_two_cents:
  assumes "f64_lt x (Finite 0)"
  shows "\<not> f64_gt x (f64_const (2 / 100))"
  using assms unfolding f64_gt_def two_cents by (cases x) simp_all

text \<open>
  Claim C3, as the code has it. For an event group whose every member has a
  non-empty book on both sides and whose \<open>sumBuy\<close> is below 1, \<open>checkEventGroup\<close>
  returns a violation: it carries the two sums, the fees
  \<open>0.05 \<sqdot> sumBuy \<sqdot> member_count\<close> (from \<open>sumSell\<close> when that exceeds 1), the slippage
  \<open>0.01 \<sqdot> member_count\<close>, \<open>netArb = (1 - sumBuy) - fees - slippage\<close>, the least
  liquidity, and the flag \<open>Actionable\<close>, which holds iff \<open>netArb > 0.02\<close> and the
  liquidity is at least 10. When \<open>netArb\<close> is negative the violation is still
  emitted, with \<open>Actionable\<close> false; when the group has at least 2 members it is
  in the list that \<open>CheckNoArbViolations\<close> returns.
\<close>

theorem noarb_gross_arb_emitted:
  assumes "list_all (two_sided e) tickers"
      and "f64_lt (sumBuy e tickers) (Finite 1)"
  shows "\<exists>v. checkEventGroup now e ev tickers = Some v
           \<and> NoArbViolation.SumBuyPrice v = sumBuy e tickers
           \<and> NoArbViolation.SumSellPrice v = sumSell e tickers
           \<and> NoArbViolation.EstimatedFees v =
               (if f64_gt (sumSell e tickers) (Finite 1)
                then f64_mul (f64_mul (sumSell e tickers) (f64_const (5 / 100)))
                       (f64_of_nat (length tickers))
                else f64_mul (f64_mul (sumBuy e tickers) (f64_const (5 / 100)))
                       (f64_of_nat (length tickers)))
           \<and> NoArbViolation.EstimatedSlippage v =
               f64_mul (f64_const (1 / 100)) (f64_of_nat (length tickers))
           \<and> NoArbViolation.NetArb v =
               f64_sub (f64_sub (f64_sub (Finite 1) (sumBuy e tickers)) (NoArbViolation.EstimatedFees v))
                 (NoArbViolation.EstimatedSlippage v)
           \<and> NoArbViolation.Liquidity v = minLiquidity e tickers
           \<and> NoArbViolation.Actionable v =
               (f64_gt (NoArbViolation.NetArb v) (f64_const (2 / 100))
                \<and> 10 \<le>s NoArbViolation.Liquidity v)
           \<and> (f64_lt (NoArbViolation.NetArb v) (Finite 0) \<longrightarrow> \<not> NoArbViolation.Actionable v)
           \<and> ((ev, tickers) \<in> set (GroupMarketsByEvent ms) \<and> 2 \<le> length tickers \<longrightarrow>
                v \<in> set (CheckNoArbViolations now ms e))"
proof -
  have legs: "legs_loop e tickers (Finite 0, Finite 0, 1000000) =
      Some (sumBuy e tickers, sumSell e tickers, minLiquidity e tickers)"
    by (simp add: legs_loop_sums [OF assms(1)] sumBuy_def sumSell_def minLiquidity_def)
  note emitted = checkEventGroup_buy [OF legs assms(2), of now ev]
  obtain v where v: "checkEventGroup now e ev tickers = Some v"
    using emitted by blast
  have fields:
    "NoArbViolation.SumBuyPrice v = sumBuy e tickers"
    "NoArbViolation.SumSellPrice v = sumSell e tickers"
    "NoArbViolation.EstimatedFees v =
       (if f64_gt (sumSell e tickers) (Finite 1)
        then f64_mul (f64_mul (sumSell e tickers) (f64_const (5 / 100))) (f64_of_nat (length tickers))
        else f64_mul (f64_mul (sumBuy e tickers) (f64_const (5 / 100))) (f64_of_nat (length tickers)))"
    "NoArbViolation.EstimatedSlippage v = f64_mul (f64_const (1 / 100)) (f64_of_nat (length tickers))"
    "NoArbViolation.NetArb v =
       f64_sub (f64_sub (f64_sub (Finite 1) (sumBuy e tickers)) (NoArbViolation.EstimatedFees v))
         (NoArbViolation.EstimatedSlippage v)"
    "NoArbViolation.Liquidity v = minLiquidity e tickers"
    "NoArbViolation.Actionable v =
       (f64_gt (NoArbViolation.NetArb v) (f64_const (2 / 100)) \<and> 10 \<le>s NoArbViolation.Liquidity v)"
    using v unfolding emitted by auto
  have flag: "f64_lt (NoArbViolation.NetArb v) (Finite 0) \<longrightarrow> \<not> NoArbViolation.Actionable v"
    using negative_not_above_two_cents fields(7) by blast
  have listed: "(ev, tickers) \<in> set (GroupMarketsByEvent ms) \<and> 2 \<le> length tickers \<longrightarrow>
      v \<in> set (CheckNoArbViolations now ms e)"
    unfolding CheckNoArbViolations_def using v violation_listed by blast
  show ?thesis
    using v fields flag listed by blast
qed

lemma s4_inputs:
  "list_all (two_sided s4_engine) [''A'', ''B'', ''C'']"
  "f64_lt (sumBuy s4_engine [''A'', ''B'', ''C'']) (Finite 1)"
  "GroupMarketsByEvent s4_markets = [(''E'', [''A'', ''B'', ''C''])]"
  by code_simp+

lemma s4_net:
  "f64_sub
     (f64_sub (f64_sub (Finite 1) (sumBuy s4_engine [''A'', ''B'', ''C'']))
        (if f64_gt (sumSell s4_engine [''A'', ''B'', ''C'']) (Finite 1)
         then f64_mul (f64_mul (sumSell s4_engine [''A'', ''B'', ''C'']) (f64_const (5 / 100)))
                (f64_of_nat (length [''A'', ''B'', ''C'']))
         else f64_mul (f64_mul (sumBuy s4_engine [''A'', ''B'', ''C'']) (f64_const (5 / 100)))
                (f64_of_nat (length [''A'', ''B'', ''C'']))))
     (f64_mul (f64_const (1 / 100)) (f64_of_nat (length [''A'', ''B'', ''C''])))
   = Finite (- (4413527634823085 / 36028797018963968))"
  by code_simp

text \<open>
  Scenario S4 (best asks 30, 45 and 20 cents): \<open>sumBuy\<close> is 0.95 and \<open>netArb\<close> is
  \<open>-0.1225\<close>; the violation is emitted, not actionable, and listed.
\<close>

theorem noarb_gross_arb_emitted_witness:
  "\<exists>v. checkEventGroup 0 s4_engine ''E'' [''A'', ''B'', ''C''] = Some v
      \<and> NoArbViolation.NetArb v = Finite (- (4413527634823085 / 36028797018963968))
      \<and> \<not> NoArbViolation.Actionable v
      \<and> v \<in> set (CheckNoArbViolations 0 s4_markets s4_engine)"
proof -
  from noarb_gross_arb_emitted [OF s4_inputs(1) s4_inputs(2), of 0 "''E''" s4_markets]
  obtain v where v: "checkEventGroup 0 s4_engine ''E'' [''A'', ''B'', ''C''] = Some v"
    and fees: "NoArbViolation.EstimatedFees v =
       (if f64_gt (sumSell s4_engine [''A'', ''B'', ''C'']) (Finite 1)
        then f64_mul (f64_mul (sumSell s4_engine [''A'', ''B'', ''C'']) (f64_const (5 / 100)))
               (f64_of_nat (length [''A'', ''B'', ''C'']))
        else f64_mul (f64_mul (sumBuy s4_engine [''A'', ''B'', ''C'']) (f64_const (5 / 100)))
               (f64_of_nat (length [''A'', ''B'', ''C''])))"
    and slip: "NoArbViolation.EstimatedSlippage v =
       f64_mul (f64_const (1 / 100)) (f64_of_nat (length [''A'', ''B'', ''C'']))"
    and net: "NoArbViolation.NetArb v =
       f64_sub (f64_sub (f64_sub (Finite 1) (sumBuy s4_engine [''A'', ''B'', ''C'']))
          (NoArbViolation.EstimatedFees v)) (NoArbViolation.EstimatedSlippage v)"
    and flag: "f64_lt (NoArbViolation.NetArb v) (Finite 0) \<longrightarrow> \<not> NoArbViolation.Actionable v"
    and listed: "(''E'', [''A'', ''B'', ''C'']) \<in> set (GroupMarketsByEvent s4_markets)
        \<and> 2 \<le> length [''A'', ''B'', ''C''] \<longrightarrow> v \<in> set (CheckNoArbViolations 0 s4_markets s4_engine)"
    by blast
  have amount: "NoArbViolation.NetArb v = Finite (- (4413527634823085 / 36028797018963968))"
    unfolding net fees slip by (rule s4_net)
  have negative: "f64_lt (NoArbViolation.NetArb v) (Finite 0)"
    by (simp add: amount)
  have member: "v \<in> set (CheckNoArbViolations 0 s4_markets s4_engine)"
    using listed by (simp add: s4_inputs(3))
  show ?thesis
    using v amount negative flag member by blast
qed

text \<open>
  The claim as stated fails at scenario S4 itself: the detector returns the
  violation of the group \<open>E\<close>, with the negative \<open>NetArb\<close> and \<open>Actionable\<close> false.
\<close>

theorem noarb_negative_net_emitted_counterexample:
  "CheckNoArbViolations 0 s4_markets s4_engine =
     [\<lparr>NoArbViolation.EventTicker = ''E'',
       NoArbViolation.Markets = [''A'', ''B'', ''C''],
       NoArbViolation.SumBuyPrice = Finite (4278419646001971 / 4503599627370496),
       NoArbViolation.SumSellPrice = Finite (517913957147607 / 562949953421312),
       NoArbViolation.NetArb = Finite (- (4413527634823085 / 36028797018963968)),
       NoArbViolation.EstimatedFees = Finite (2567051787601183 / 18014398509481984),
       NoArbViolation.EstimatedSlippage = Finite (1080863910568919 / 36028797018963968),
       NoArbViolation.Liquidity = 10,
       NoArbViolation.Timestamp = 0,
       NoArbViolation.Actionable = False\<rparr>]"
  by code_simp

subsection \<open>Volume surge\<close>

lemma volume_loop_sum: "volume_loop trs v = v + sum_list (map Trade.Quantity trs)"
  by (induction trs arbitrary: v) (simp_all add: add.assoc)

lemma detectVolumeSurge_Some:
  assumes "detectVolumeSurge cfg now\<^sub>r now\<^sub>b now\<^sub>s e ticker = Some signal"
  shows "2 \<le> length (baseline_trades cfg now\<^sub>b e ticker)
         \<and> f64_gt (surge_ratio (recent_volume cfg now\<^sub>r e ticker) (baseline_volume cfg now\<^sub>b e ticker))
             (VolumeSurgeThreshold cfg)
         \<and> Signal.Type signal = SignalTypeVolumeSurge
         \<and> Signal.Value signal =
             surge_ratio (recent_volume cfg now\<^sub>r e ticker) (baseline_volume cfg now\<^sub>b e ticker)"
proof -
  let ?recent = "GetRecentTrades now\<^sub>r ticker (VolumeWindowSecs cfg * Second) e"
  let ?base = "GetRecentTrades now\<^sub>b ticker (VolumeWindowSecs cfg * 5 * Second) e"
  let ?ratio = "f64_div (f64_of_int (volume_loop ?recent 0))
                  (f64_div (f64_of_int (volume_loop ?base 0)) (Finite 5))"
  have enough: "\<not> length ?base < 2"
    using assms by (auto simp: detectVolumeSurge_def Let_def split: if_splits)
  have crossed: "f64_gt ?ratio (VolumeSurgeThreshold cfg)"
    using assms by (auto simp: detectVolumeSurge_def Let_def split: if_splits)
  have built: "Signal.Type signal = SignalTypeVolumeSurge \<and> Signal.Value signal = ?ratio"
    using assms by (auto simp: detectVolumeSurge_def Let_def split: if_splits)
  show ?thesis
    using enough crossed built
    by (simp add: baseline_trades_def recent_volume_def baseline_volume_def surge_ratio_def
        volume_loop_sum)
qed

lemma detectVolumeSurge_thin_baseline:
  assumes "length (baseline_trades cfg now\<^sub>b e ticker) < 2"
  shows "detectVolumeSurge cfg now\<^sub>r now\<^sub>b now\<^sub>s e ticker = None"
  using assms by (simp add: detectVolumeSurge_def baseline_trades_def Let_def)

lemma offered_Some: "signal \<in> set (offered r) \<longleftrightarrow> r = Some signal"
  by (cases r) (auto simp: offered_def)

lemma imbalance_signal_type:
  assumes "computeOrderbookImbalance cfg now ticker orderbook = Some signal"
  shows "Signal.Type signal = SignalTypeOrderbookImbalance"
  using assms by (auto simp: computeOrderbookImbalance_def Let_def split: option.splits if_splits)

lemma drift_signal_type:
  assumes "computeImpliedProbabilityDrift cfg now\<^sub>t now\<^sub>s e ticker orderbook = Some signal"
  shows "Signal.Type signal = SignalTypeImpliedProbabilityDrift"
  using assms by (auto simp: computeImpliedProbabilityDrift_def Let_def split: if_splits)

lemma quantitative_signal_type:
  assumes "quantitativeSignal msqrt now e market orderbook = Some signal"
  shows "Signal.Type signal = SignalTypeOrderbookImbalance"
  using assms by (auto simp: quantitativeSignal_def Let_def split: option.splits)

lemma surge_signal_of_tick:
  assumes "signal \<in> set (computeSignals_market msqrt cfg now e market)"
      and "Signal.Type signal = SignalTypeVolumeSurge"
  shows "detectVolumeSurge cfg now now now e (Market.Ticker market) = Some signal"
proof -
  from assms(1) obtain orderbook where
    parts: "computeOrderbookImbalance cfg now (Market.Ticker market) orderbook = Some signal
       \<or> computeImpliedProbabilityDrift cfg now now e (Market.Ticker market) orderbook = Some signal
       \<or> detectVolumeSurge cfg now now now e (Market.Ticker market) = Some signal
       \<or> quantitativeSignal msqrt now e market orderbook = Some signal"
    by (auto simp: computeSignals_market_def offered_Some split: if_splits option.splits)
  then show ?thesis
    using assms(2) imbalance_signal_type drift_signal_type quantitative_signal_type
    by fastforce
qed

text \<open>
  Claim C7. \<open>detectVolumeSurge\<close> returns a signal only if the baseline window
  (five times the volume window) holds at least 2 trades and the ratio
  \<open>V\<^sub>r / (V\<^sub>b / 5)\<close> exceeds the volume-surge threshold; with fewer than 2 trades
  in the baseline window it returns none. Every volume-surge signal that a tick of
  the processor offers for a market is the one \<open>detectVolumeSurge\<close> returned, so
  it obeys the same conditions.
\<close>

theorem volume_surge_needs_baseline:
  "(detectVolumeSurge cfg now\<^sub>r now\<^sub>b now\<^sub>s e ticker = Some signal \<longrightarrow>
      2 \<le> length (baseline_trades cfg now\<^sub>b e ticker)
      \<and> f64_gt (surge_ratio (recent_volume cfg now\<^sub>r e ticker) (baseline_volume cfg now\<^sub>b e ticker))
          (VolumeSurgeThreshold cfg))
   \<and> (length (baseline_trades cfg now\<^sub>b e ticker) < 2 \<longrightarrow>
        detectVolumeSurge cfg now\<^sub>r now\<^sub>b now\<^sub>s e ticker = None)
   \<and> (signal \<in> set (computeSignals_market msqrt cfg now e market)
        \<and> Signal.Type signal = SignalTypeVolumeSurge \<longrightarrow>
        2 \<le> length (baseline_trades cfg now e (Market.Ticker market))
        \<and> f64_gt (surge_ratio (recent_volume cfg now e (Market.Ticker market))
                    (baseline_volume cfg now e (Market.Ticker market)))
            (VolumeSurgeThreshold cfg))"
  using detectVolumeSurge_Some detectVolumeSurge_thin_baseline surge_signal_of_tick
  by blast

lemma surge_example:
  "detectVolumeSurge default_config 1000000000000 1000000000000 1000000000000 surge_engine ''M'' =
     Some \<lparr>Signal.MarketTicker = ''M'',
           Signal.Type = SignalTypeVolumeSurge,
           Signal.Value = Finite (5117726849284655 / 1125899906842624),
           Signal.Timestamp = 1000000000000,
           Signal.Metadata =
             \<lparr>PreviousValue = Some (Finite 22), ThresholdCrossed = True, Confidence = Finite 1\<rparr>,
           Signal.ImpliedProbabilityDrift = None,
           Signal.OrderbookImbalance = None,
           Signal.VolumeSurge =
             Some \<lparr>VolumeMultiplier = Finite (5117726849284655 / 1125899906842624),
                   VolumeSurgeData.WindowSecs = 30\<rparr>\<rparr>"
  by code_simp

text \<open>
  With the default configuration at the instant 1000 s: the two trades of the last
  30 seconds make \<open>V\<^sub>r = 100\<close>, the three trades of the last 150 seconds make
  \<open>V\<^sub>b = 110\<close>, the ratio \<open>100 / 22\<close> exceeds 3 and the signal is emitted.
\<close>

theorem volume_surge_needs_baseline_witness:
  "detectVolumeSurge default_config 1000000000000 1000000000000 1000000000000 surge_engine ''M'' =
     Some \<lparr>Signal.MarketTicker = ''M'',
           Signal.Type = SignalTypeVolumeSurge,
           Signal.Value = Finite (5117726849284655 / 1125899906842624),
           Signal.Timestamp = 1000000000000,
           Signal.Metadata =
             \<lparr>PreviousValue = Some (Finite 22), ThresholdCrossed = True, Confidence = Finite 1\<rparr>,
           Signal.ImpliedProbabilityDrift = None,
           Signal.OrderbookImbalance = None,
           Signal.VolumeSurge =
             Some \<lparr>VolumeMultiplier = Finite (5117726849284655 / 1125899906842624),
                   VolumeSurgeData.WindowSecs = 30\<rparr>\<rparr>
   \<and> 2 \<le> length (baseline_trades default_config 1000000000000 surge_engine ''M'')
   \<and> f64_gt (surge_ratio (recent_volume default_config 1000000000000 surge_engine ''M'')
               (baseline_volume default_config 1000000000000 surge_engine ''M''))
       (VolumeSurgeThreshold default_config)"
  using volume_surge_needs_baseline
          [of default_config 1000000000000 1000000000000 1000000000000 surge_engine "''M''"]
        surge_example
  by blast

subsection \<open>Reconnecting the stream\<close>

lemma Run_loop_delays:
  "fst (Run_loop attempts delay w slept) =
     fst (Run_loop (map (\<lambda>_. DialFails) attempts) delay w' slept)"
  by (induction attempts arbitrary: delay w w' slept) (simp_all add: Let_def)

text \<open>
  The delays that \<open>Run\<close> sleeps do not depend on whether the attempts connect: the
  loop doubles its local variable after every attempt, and \<open>connectAndListen\<close>
  resets the field \<^verbatim>\<open>reconnectDelay\<close>, which the loop reads once, before its first
  attempt.
\<close>

lemma Run_delays_ignore_connects:
  "fst (WebSocketHandler_Run attempts w) =
     fst (WebSocketHandler_Run (map (\<lambda>_. DialFails) attempts) w)"
  unfolding WebSocketHandler_Run_def by (rule Run_loop_delays)

text \<open>
  Claim C9 at a failing input. With the base delay of 5 s, the first dial fails,
  the second attempt connects and the connection ends later, the third dial fails:
  \<open>Run\<close> sleeps 5 s, 10 s and 20 s. The claim has the delay back at 5 s after the
  successful connect, that is 5 s, 5 s and 10 s.
\<close>

theorem reconnect_delay_not_reset_after_connect:
  "WebSocketHandler_Run [DialFails, Connects, DialFails]
     (NewWebSocketHandler ''wss://stream.example/ws'' 5) =
     ([5 * Second, 10 * Second, 20 * Second],
      \<lparr>url = ''wss://stream.example/ws'', reconnectDelay = 5 * Second\<rparr>)"
  by code_simp

subsection \<open>The quantitative bundle and the dispatcher\<close>

lemma quantitativeSignal_Some:
  assumes "quantitativeSignal msqrt now e market orderbook = Some signal"
  shows "\<not> ThresholdCrossed (Signal.Metadata signal)
         \<and> (\<exists>quantSig.
               ComputeQuantitativeSignals msqrt now (Market.Ticker market) orderbook
                 (GetRecentTrades now (Market.Ticker market) (5 * Minute) e) = Some quantSig
               \<and> Signal.Value signal = LiquidityScore quantSig
               \<and> Confidence (Signal.Metadata signal) = EfficiencyScore quantSig)"
  using assms by (auto simp: quantitativeSignal_def Let_def split: option.splits)

lemma receive_uncrossed:
  assumes "\<not> ThresholdCrossed (Signal.Metadata signal)"
  shows "receive_signal format now\<^sub>c now\<^sub>u signal m = (m, [])"
  using assms by (simp add: receive_signal_def)

lemma Manager_loop_uncrossed:
  assumes "list_all (\<lambda>r. \<not> ThresholdCrossed (Signal.Metadata (fst r))) received"
  shows "Manager_loop format received m sent = (m, sent)"
  using assms
proof (induction received arbitrary: sent)
  case Nil
  then show ?case by simp
next
  case (Cons r rs)
  obtain signal now\<^sub>c now\<^sub>u where r: "r = (signal, now\<^sub>c, now\<^sub>u)" by (cases r)
  from Cons.prems have "\<not> ThresholdCrossed (Signal.Metadata signal)" and rest:
    "list_all (\<lambda>r. \<not> ThresholdCrossed (Signal.Metadata (fst r))) rs"
    by (simp_all add: r)
  then show ?case
    by (simp add: r receive_uncrossed Cons.IH)
qed

lemma tick_offers_bundle_last:
  assumes "Market.Status market = StatusActive"
      and "GetOrderbook (Market.Ticker market) e = Some orderbook"
  shows "computeSignals_market msqrt cfg now e market =
           offered (computeOrderbookImbalance cfg now (Market.Ticker market) orderbook)
           @ offered (computeImpliedProbabilityDrift cfg now now e (Market.Ticker market) orderbook)
           @ offered (detectVolumeSurge cfg now now now e (Market.Ticker market))
           @ offered (quantitativeSignal msqrt now e market orderbook)"
  using assms by (simp add: computeSignals_market_def)

text \<open>
  Claim C10. The quantitative-bundle signal that a tick of the processor offers
  for an active market (the last of the tick's signals) has the liquidity score
  as its value, the efficiency score as its confidence and \<open>ThresholdCrossed\<close>
  false. The dispatcher hands a received signal to \<open>handleSignal\<close> only when its
  metadata has \<open>ThresholdCrossed\<close> set: on a quantitative-bundle signal it leaves
  the cool-down table as it is and delivers nothing, and a run that receives only
  signals with the flag unset delivers nothing.
\<close>

theorem quantitative_bundle_never_delivered:
  "(Market.Status market = StatusActive \<and> GetOrderbook (Market.Ticker market) e = Some orderbook \<longrightarrow>
      computeSignals_market msqrt cfg now e market =
        offered (computeOrderbookImbalance cfg now (Market.Ticker market) orderbook)
        @ offered (computeImpliedProbabilityDrift cfg now now e (Market.Ticker market) orderbook)
        @ offered (detectVolumeSurge cfg now now now e (Market.Ticker market))
        @ offered (quantitativeSignal msqrt now e market orderbook))
   \<and> (quantitativeSignal msqrt now e market orderbook = Some signal \<longrightarrow>
        \<not> ThresholdCrossed (Signal.Metadata signal)
        \<and> (\<exists>quantSig.
              ComputeQuantitativeSignals msqrt now (Market.Ticker market) orderbook
                (GetRecentTrades now (Market.Ticker market) (5 * Minute) e) = Some quantSig
              \<and> Signal.Value signal = LiquidityScore quantSig
              \<and> Confidence (Signal.Metadata signal) = EfficiencyScore quantSig)
        \<and> receive_signal format now\<^sub>c now\<^sub>u signal m = (m, []))
   \<and> (list_all (\<lambda>r. \<not> ThresholdCrossed (Signal.Metadata (fst r))) received \<longrightarrow>
        Manager_Run format received m = (m, []))"
proof -
  have dispatch: "list_all (\<lambda>r. \<not> ThresholdCrossed (Signal.Metadata (fst r))) received \<longrightarrow>
      Manager_Run format received m = (m, [])"
    by (simp add: Manager_Run_def Manager_loop_uncrossed)
  show ?thesis
    using tick_offers_bundle_last quantitativeSignal_Some receive_uncrossed dispatch
    by blast
qed

lemma bundle_example:
  "quantitativeSignal (\<lambda>x. x) 20 s3_engine example_market s3_book =
     Some \<lparr>Signal.MarketTicker = ''M'',
           Signal.Type = SignalTypeOrderbookImbalance,
           Signal.Value = Finite (2242792614430507 / 2251799813685248),
           Signal.Timestamp = 20,
           Signal.Metadata =
             \<lparr>PreviousValue = None, ThresholdCrossed = False, Confidence = Finite 1\<rparr>,
           Signal.ImpliedProbabilityDrift = None,
           Signal.OrderbookImbalance = None,
           Signal.VolumeSurge = None\<rparr>"
  by code_simp

text \<open>
  Market \<open>M\<close> with the book of scenario S3: the bundle's signal has the liquidity
  score 0.996 and the efficiency score 1, and the dispatcher, with both webhook
  clients configured and nothing in cool-down, delivers nothing for it.
\<close>

theorem quantitative_bundle_never_delivered_witness:
  "quantitativeSignal (\<lambda>x. x) 20 s3_engine example_market s3_book =
     Some \<lparr>Signal.MarketTicker = ''M'',
           Signal.Type = SignalTypeOrderbookImbalance,
           Signal.Value = Finite (2242792614430507 / 2251799813685248),
           Signal.Timestamp = 20,
           Signal.Metadata =
             \<lparr>PreviousValue = None, ThresholdCrossed = False, Confidence = Finite 1\<rparr>,
           Signal.ImpliedProbabilityDrift = None,
           Signal.OrderbookImbalance = None,
           Signal.VolumeSurge = None\<rparr>
   \<and> receive_signal (\<lambda>signal. ''message'') 21 22
        \<lparr>Signal.MarketTicker = ''M'',
         Signal.Type = SignalTypeOrderbookImbalance,
         Signal.Value = Finite (2242792614430507 / 2251799813685248),
         Signal.Timestamp = 20,
         Signal.Metadata =
           \<lparr>PreviousValue = None, ThresholdCrossed = False, Confidence = Finite 1\<rparr>,
         Signal.ImpliedProbabilityDrift = None,
         Signal.OrderbookImbalance = None,
         Signal.VolumeSurge = None\<rparr>
        example_manager
      = (example_manager, [])"
  using quantitative_bundle_never_delivered
          [of example_market s3_engine s3_book "\<lambda>x. x" default_config 20 _
              "\<lambda>signal. ''message''" 21 22 example_manager "[]"]
        bundle_example
  by blast

end
